theory Spec2Isabelle
  imports Complex_Main "HOL-Library.Multiset" "HOL-Library.Log_Nat"
begin

section \<open>Values shared by the components (types.ts)\<close>

text \<open>
  The enum \<^verbatim>\<open>GestureState\<close> of \<^verbatim>\<open>types.ts\<close>, in the order of its declaration.
\<close>

datatype GestureState = CLOSED | OPEN | NONE

text \<open>
  JavaScript never raises on an array read: an index outside the array (or the index
  \<^verbatim>\<open>undefined\<close>) yields \<^verbatim>\<open>undefined\<close>, written \<open>None\<close> here.
\<close>

definition elem_at :: "'a list \<Rightarrow> nat \<Rightarrow> 'a option" where
  "elem_at xs i = (if i < length xs then Some (xs ! i) else None)"

text \<open>
  \<^verbatim>\<open>xs.splice(i, 1)\<close> removes the element at index \<open>i\<close>, and nothing when \<open>i\<close> is not
  an index of the array.
\<close>

definition splice1 :: "'a list \<Rightarrow> nat \<Rightarrow> 'a list" where
  "splice1 xs i = take i xs @ drop (Suc i) xs"

section \<open>The application state and its handlers (App.tsx, CameraHandler)\<close>

text \<open>
  The React state of \<^verbatim>\<open>App\<close> that the handlers read and write. \<open>currentPhrase\<close> is
  a string or \<^verbatim>\<open>undefined\<close>. The field \<open>phraseCalls\<close> is instrumentation: it is not in the
  source, and counts the calls of \<^verbatim>\<open>triggerNewPhrase\<close>.

  A handler is a closure of one render. It reads \<^verbatim>\<open>isExpanded\<close> and \<^verbatim>\<open>availableIndices\<close>
  as they were in that render: the argument \<open>r\<close>, the state at the render that created the
  closure. It writes through the setters, which replace fields of the current state \<open>s\<close>.
  The value of \<^verbatim>\<open>Math.random()\<close> that a call would draw is its argument \<open>u\<close>, a real number
  (the product and its floor are computed exactly).
\<close>

record app =
  gestureState :: GestureState
  isExpanded :: bool
  currentPhrase :: "string option"
  availableIndices :: "nat list"
  phraseCalls :: nat

definition initial :: "string list \<Rightarrow> app" where
  "initial PHRASES =
     \<lparr>gestureState = CLOSED, isExpanded = False, currentPhrase = Some [],
      availableIndices = [0..<length PHRASES], phraseCalls = 0\<rparr>"

definition triggerNewPhrase :: "string list \<Rightarrow> real \<Rightarrow> app \<Rightarrow> app \<Rightarrow> app" where
  "triggerNewPhrase PHRASES u r s =
     (let indices = availableIndices r;
          indices = (if length indices = 0 then [0..<length PHRASES] else indices);
          randomIndex = nat \<lfloor>u * real (length indices)\<rfloor>;
          phraseIndex = elem_at indices randomIndex;
          newIndices = splice1 indices randomIndex
      in s\<lparr>availableIndices := newIndices,
            currentPhrase := (case phraseIndex of None \<Rightarrow> None | Some j \<Rightarrow> elem_at PHRASES j),
            phraseCalls := Suc (phraseCalls s)\<rparr>)"

text \<open>
  \<^verbatim>\<open>handleGestureDetected\<close> is memoised with \<^verbatim>\<open>useCallback\<close> on \<^verbatim>\<open>[isExpanded]\<close>; the
  \<^verbatim>\<open>triggerNewPhrase\<close> it calls is the one of its own render.
\<close>

definition handleGestureDetected ::
  "string list \<Rightarrow> real \<Rightarrow> app \<Rightarrow> GestureState \<Rightarrow> app \<Rightarrow> app" where
  "handleGestureDetected PHRASES u r detectedState s =
     (let s1 = (if detectedState = OPEN \<and> \<not> isExpanded r
                then triggerNewPhrase PHRASES u r (s\<lparr>isExpanded := True\<rparr>)
                else if detectedState = CLOSED \<and> isExpanded r
                then s\<lparr>isExpanded := False\<rparr>
                else s)
      in s1\<lparr>gestureState := detectedState\<rparr>)"

definition handleManualToggle :: "string list \<Rightarrow> real \<Rightarrow> app \<Rightarrow> app \<Rightarrow> app" where
  "handleManualToggle PHRASES u r s =
     (if isExpanded r
      then s\<lparr>isExpanded := False, gestureState := CLOSED\<rparr>
      else triggerNewPhrase PHRASES u r (s\<lparr>isExpanded := True, gestureState := OPEN\<rparr>))"

text \<open>
  \<^verbatim>\<open>handleManualToggle\<close> is created anew in every render and bound to the button, so a
  click runs the closure of the latest render, which reads the current state.
\<close>

definition click :: "string list \<Rightarrow> real \<Rightarrow> app \<Rightarrow> app" where
  "click PHRASES u s = handleManualToggle PHRASES u s s"

text \<open>
  The response callback of \<^verbatim>\<open>CameraHandler\<close>: a response other than \<^verbatim>\<open>'NONE'\<close> is mapped
  to the enum and handed to \<^verbatim>\<open>onGestureDetected\<close>, \<^verbatim>\<open>'NONE'\<close> is dropped. The callback is
  created inside \<^verbatim>\<open>startAnalysisLoop\<close>, which an effect with the dependencies
  \<^verbatim>\<open>[active, hasPermission]\<close> runs: the \<^verbatim>\<open>onGestureDetected\<close> it calls stays the handler of
  the render \<open>r\<close> in which the analysis loop started, for as long as the loop runs.
\<close>

definition onResponse :: "string list \<Rightarrow> real \<Rightarrow> app \<Rightarrow> GestureState \<Rightarrow> app \<Rightarrow> app" where
  "onResponse PHRASES u r gesture s =
     (if gesture \<noteq> NONE
      then handleGestureDetected PHRASES u r (if gesture = OPEN then OPEN else CLOSED) s
      else s)"

text \<open>
  A sequence of responses of the classifier, each with the random value its call may draw,
  through the callback of the analysis loop that started in the render \<open>r\<close>: the states
  after each response, in order.
\<close>

fun feed :: "string list \<Rightarrow> app \<Rightarrow> (real \<times> GestureState) list \<Rightarrow> app \<Rightarrow> app list" where
  "feed PHRASES r [] s = []"
| "feed PHRASES r ((u, g) # gs) s =
     (let s' = onResponse PHRASES u r g s in s' # feed PHRASES r gs s')"

text \<open>
  \<open>entries b prev ms\<close> counts the positions of the mode sequence \<open>ms\<close> (preceded by the mode
  \<open>prev\<close>) at which the mode becomes \<open>b\<close>, coming from the other mode.
\<close>

fun entries :: "bool \<Rightarrow> bool \<Rightarrow> bool list \<Rightarrow> nat" where
  "entries b prev [] = 0"
| "entries b prev (m # ms) = (if m = b \<and> prev \<noteq> b then 1 else 0) + entries b m ms"

text \<open>
  Consecutive selections with the button: each pair of clicks disperses (which selects a
  phrase) and reforms. The phrase shown after each dispersing click, and the final state.
\<close>

fun manual_selections :: "string list \<Rightarrow> real list \<Rightarrow> app \<Rightarrow> string option list \<times> app" where
  "manual_selections PHRASES [] s = ([], s)"
| "manual_selections PHRASES (u # us) s =
     (let s1 = click PHRASES u s;
          s2 = click PHRASES u s1;
          rest = manual_selections PHRASES us s2
      in (currentPhrase s1 # fst rest, snd rest))"

section \<open>Numbers\<close>

text \<open>
  A JavaScript number is a binary64 floating-point number. Coordinates, sizes, times and the
  blend coefficient are modelled as real numbers: the results about them are results about
  the formulas of the source, computed exactly. The one place where rounding decides an
  integer, \<^verbatim>\<open>Math.floor(PARTICLE_COUNT * 0.35)\<close> (and \<^verbatim>\<open>* 0.4\<close>), is modelled bit for bit.

  The literal \<^verbatim>\<open>0.35\<close> denotes the binary64 number \<open>6305039478318694 / 2 ^ 54\<close>
  (hexadecimal \<^verbatim>\<open>0x1.6666666666666p-2\<close>, a little less than 0.35), and \<^verbatim>\<open>0.4\<close> denotes
  \<open>7205759403792794 / 2 ^ 54\<close> (\<^verbatim>\<open>0x1.999999999999ap-2\<close>, a little more than 0.4).
\<close>

definition c035 :: nat where
  "c035 = 6305039478318694"

definition c04 :: nat where
  "c04 = 7205759403792794"

text \<open>
  \<open>round53 p\<close> rounds the natural number \<open>p\<close> to 53 significant bits, to the nearest
  such number and to the one with an even last bit on a tie: the rounding of a binary64
  product. \<open>floorlog 2 p\<close> is the number of bits of \<open>p\<close>; the subtraction is the one of
  natural numbers, so a number of at most 53 bits is kept as it is.
\<close>

definition round53 :: "nat \<Rightarrow> nat" where
  "round53 p =
     (let s = floorlog 2 p - 53; q = p div 2 ^ s; r = p mod 2 ^ s
      in if 2 ^ s < 2 * r \<or> (2 * r = 2 ^ s \<and> odd q) then (q + 1) * 2 ^ s else q * 2 ^ s)"

text \<open>
  \<open>floor_times m n\<close> is \<^verbatim>\<open>Math.floor(n * c)\<close> for an integer \<open>n\<close> below \<open>2 ^ 53\<close> in
  absolute value and the binary64 constant \<open>c = m / 2 ^ 54\<close>: the exact product
  \<open>n * m / 2 ^ 54\<close> is rounded to 53 bits (the sign apart), and the floor is taken.
\<close>

definition floor_times :: "nat \<Rightarrow> int \<Rightarrow> int" where
  "floor_times m n = (sgn n * int (round53 (nat \<bar>n\<bar> * m))) div 2 ^ 54"

section \<open>The particle field (SaturnScene.tsx and its earlier variant)\<close>

text \<open>
  The module \<^verbatim>\<open>constants\<close> is not among the sources: its values are parameters.
\<close>

record constants =
  PARTICLE_COUNT :: int
  SATURN_RADIUS :: real
  RING_INNER_RADIUS :: real
  RING_OUTER_RADIUS :: real
  EXPANSION_SCALE :: real

text \<open>
  \<^verbatim>\<open>new Float32Array(n)\<close> throws a \<^verbatim>\<open>RangeError\<close> for a negative length, and reading a
  property of \<^verbatim>\<open>undefined\<close> throws a \<^verbatim>\<open>TypeError\<close>. (The largest length an engine
  allocates is not modelled.)
\<close>

datatype error = RangeError | TypeError

type_synonym vec3 = "real \<times> real \<times> real"

text \<open>
  The radius of a ring particle, from the uniform random number \<open>t\<close>: the expression
  \<^verbatim>\<open>Math.sqrt(t) * (RING_OUTER_RADIUS - RING_INNER_RADIUS) + RING_INNER_RADIUS\<close> of both
  variants.
\<close>

definition ring_radius :: "constants \<Rightarrow> real \<Rightarrow> real" where
  "ring_radius K t = sqrt t * (RING_OUTER_RADIUS K - RING_INNER_RADIUS K) + RING_INNER_RADIUS K"

subsection \<open>The shader variant: four typed arrays\<close>

text \<open>
  The arrays under construction, the running index \<open>idx\<close>, and the number \<open>draws\<close> of calls
  of \<^verbatim>\<open>Math.random()\<close> made so far; \<open>rnd k\<close> is the value of call number \<open>k\<close>, in \<open>[0, 1)\<close>.
  A write outside a typed array is ignored, as \<open>xs[i := v]\<close> does. \<open>Color\<close> stands for the
  constructor \<^verbatim>\<open>THREE.Color\<close> of the library: it gives the three channels of a colour.
\<close>

record buffers =
  pos :: "real list"
  randPos :: "real list"
  cols :: "real list"
  siz :: "real list"
  idx :: nat
  draws :: nat

text \<open>
  The colour of the body particle \<open>i\<close>: the expression
  \<^verbatim>\<open>i % 2 === 0 ? colorSaturn1 : colorSaturn2\<close>.
\<close>

definition sphere_colour :: "(string \<Rightarrow> vec3) \<Rightarrow> nat \<Rightarrow> vec3" where
  "sphere_colour Color i = (if i mod 2 = 0 then Color ''#EAD6B8'' else Color ''#C5A984'')"

definition sphere_step ::
  "constants \<Rightarrow> (string \<Rightarrow> vec3) \<Rightarrow> (nat \<Rightarrow> real) \<Rightarrow> nat \<Rightarrow> nat \<Rightarrow> buffers \<Rightarrow> buffers" where
  "sphere_step K Color rnd sphereCount i b =
     (let phi = arccos (- 1 + (2 * real i) / real sphereCount);
          theta = sqrt (real sphereCount * pi) * phi;
          r = SATURN_RADIUS K;
          x = r * cos theta * sin phi;
          y = (r * sin theta * sin phi) * 0.9;
          z = r * cos phi;
          j = idx b;
          k = draws b;
          c = sphere_colour Color i
      in b\<lparr>pos := (pos b)[j := x, j + 1 := y, j + 2 := z],
            randPos := (randPos b)
              [j := (rnd k - 0.5) * EXPANSION_SCALE K * 2.5,
               j + 1 := (rnd (k + 1) - 0.5) * EXPANSION_SCALE K * 2.5,
               j + 2 := (rnd (k + 2) - 0.5) * EXPANSION_SCALE K * 2.5],
            cols := (cols b)[j := fst c, j + 1 := fst (snd c), j + 2 := snd (snd c)],
            siz := (siz b)[i := rnd (k + 3) * 0.4 + 0.2],
            idx := j + 3,
            draws := k + 4\<rparr>)"

definition ring_step ::
  "constants \<Rightarrow> (string \<Rightarrow> vec3) \<Rightarrow> (nat \<Rightarrow> real) \<Rightarrow> nat \<Rightarrow> nat \<Rightarrow> buffers \<Rightarrow> buffers" where
  "ring_step K Color rnd sphereCount i b =
     (let j = idx b;
          k = draws b;
          angle = rnd k * pi * 2;
          t = rnd (k + 1);
          r = ring_radius K t;
          x = cos angle * r;
          z = sin angle * r;
          y = (rnd (k + 2) - 0.5) * 0.4;
          c = (if rnd (k + 6) > 0.4 then Color ''#A89F91'' else Color ''#D3C1A5'')
      in b\<lparr>pos := (pos b)[j := x, j + 1 := y, j + 2 := z],
            randPos := (randPos b)
              [j := (rnd (k + 3) - 0.5) * EXPANSION_SCALE K * 4,
               j + 1 := (rnd (k + 4) - 0.5) * EXPANSION_SCALE K * 4,
               j + 2 := (rnd (k + 5) - 0.5) * EXPANSION_SCALE K * 4],
            cols := (cols b)[j := fst c, j + 1 := fst (snd c), j + 2 := snd (snd c)],
            siz := (siz b)[sphereCount + i := rnd (k + 7) * 0.25 + 0.1],
            idx := j + 3,
            draws := k + 8\<rparr>)"

record particleData =
  positions :: "real list"
  randomPositions :: "real list"
  colors :: "real list"
  sizes :: "real list"

text \<open>
  The generation of \<^verbatim>\<open>SaturnScene.tsx\<close>: the four allocations, the loop of the planet
  sphere over \<open>i < sphereCount\<close>, the loop of the rings over \<open>i < ringCount\<close>.
\<close>

definition shader_particles ::
  "constants \<Rightarrow> (string \<Rightarrow> vec3) \<Rightarrow> (nat \<Rightarrow> real) \<Rightarrow> error + particleData" where
  "shader_particles K Color rnd =
     (if PARTICLE_COUNT K * 3 < 0 then Inl RangeError
      else
        let n = nat (PARTICLE_COUNT K);
            b0 = \<lparr>pos = replicate (n * 3) 0, randPos = replicate (n * 3) 0,
                  cols = replicate (n * 3) 0, siz = replicate n 0, idx = 0, draws = 0\<rparr>;
            sphereCount = floor_times c035 (PARTICLE_COUNT K);
            b1 = fold (sphere_step K Color rnd (nat sphereCount)) [0..<nat sphereCount] b0;
            ringCount = PARTICLE_COUNT K - sphereCount;
            b2 = fold (ring_step K Color rnd (nat sphereCount)) [0..<nat ringCount] b1
        in Inr \<lparr>positions = pos b2, randomPositions = randPos b2,
                 colors = cols b2, sizes = siz b2\<rparr>)"

text \<open>
  The group of the particle in slot \<open>i\<close>: the sphere loop fills the slots below
  \<open>sphereCount\<close>, the ring loop the slots from \<open>sphereCount\<close> on.
\<close>

datatype group = Body | Ring

definition group_of :: "int \<Rightarrow> nat \<Rightarrow> group" where
  "group_of sphereCount i = (if int i < sphereCount then Body else Ring)"

definition colour_at :: "real list \<Rightarrow> nat \<Rightarrow> vec3" where
  "colour_at cs i = (cs ! (3 * i), cs ! (3 * i + 1), cs ! (3 * i + 2))"

subsection \<open>The earlier variant: a list of particle objects\<close>

text \<open>
  The interface \<^verbatim>\<open>ParticlePoint\<close>. The fields \<^verbatim>\<open>x\<close>, \<^verbatim>\<open>y\<close>, \<^verbatim>\<open>z\<close>, \<^verbatim>\<open>color\<close> and
  \<^verbatim>\<open>size\<close> carry the prefix \<open>p_\<close>, since a field is a constant of the theory.
\<close>

record ParticlePoint =
  p_x :: real
  p_y :: real
  p_z :: real
  initialX :: real
  initialY :: real
  initialZ :: real
  randomX :: real
  randomY :: real
  randomZ :: real
  p_color :: string
  p_size :: real

definition sphere_particle ::
  "constants \<Rightarrow> (nat \<Rightarrow> real) \<Rightarrow> nat \<Rightarrow> nat \<Rightarrow> nat \<Rightarrow> ParticlePoint" where
  "sphere_particle K rnd sphereCount i k =
     (let phi = arccos (- 1 + (2 * real i) / real sphereCount);
          theta = sqrt (real sphereCount * pi) * phi;
          x = SATURN_RADIUS K * cos theta * sin phi;
          y = SATURN_RADIUS K * sin theta * sin phi;
          z = SATURN_RADIUS K * cos phi;
          flattenedY = y * 0.9
      in \<lparr>p_x = x, p_y = flattenedY, p_z = z,
          initialX = x, initialY = flattenedY, initialZ = z,
          randomX = (rnd k - 0.5) * EXPANSION_SCALE K * 2,
          randomY = (rnd (k + 1) - 0.5) * EXPANSION_SCALE K * 2,
          randomZ = (rnd (k + 2) - 0.5) * EXPANSION_SCALE K * 2,
          p_color = (if i mod 2 = 0 then ''#C5A984'' else ''#EAD6B8''),
          p_size = rnd (k + 3) * 0.3 + 0.1\<rparr>)"

definition ring_particle :: "constants \<Rightarrow> (nat \<Rightarrow> real) \<Rightarrow> nat \<Rightarrow> ParticlePoint" where
  "ring_particle K rnd k =
     (let angle = rnd k * pi * 2;
          distance = ring_radius K (rnd (k + 1));
          x = cos angle * distance;
          z = sin angle * distance;
          y = (rnd (k + 2) - 0.5) * 0.5
      in \<lparr>p_x = x, p_y = y, p_z = z,
          initialX = x, initialY = y, initialZ = z,
          randomX = (rnd (k + 3) - 0.5) * EXPANSION_SCALE K * 3,
          randomY = (rnd (k + 4) - 0.5) * EXPANSION_SCALE K * 3,
          randomZ = (rnd (k + 5) - 0.5) * EXPANSION_SCALE K * 3,
          p_color = (if rnd (k + 6) > 0.5 then ''#A89F91'' else ''#8B7355''),
          p_size = rnd (k + 7) * 0.2 + 0.05\<rparr>)"

text \<open>
  The two loops push onto \<^verbatim>\<open>temp\<close>; the state of a loop is \<^verbatim>\<open>temp\<close> and the number of
  random draws made so far.
\<close>

definition cpu_particles :: "constants \<Rightarrow> (nat \<Rightarrow> real) \<Rightarrow> ParticlePoint list" where
  "cpu_particles K rnd =
     (let sphereCount = floor_times c04 (PARTICLE_COUNT K);
          l1 = fold (\<lambda>i (temp, k). (temp @ [sphere_particle K rnd (nat sphereCount) i k], k + 4))
                 [0..<nat sphereCount] ([], 0);
          ringCount = PARTICLE_COUNT K - sphereCount;
          l2 = fold (\<lambda>i (temp, k). (temp @ [ring_particle K rnd k], k + 8))
                 [0..<nat ringCount] l1
      in fst l2)"

text \<open>
  The buffers of the earlier variant: allocated after the particles, the colours and sizes
  filled in from the particles.
\<close>

record cpuData =
  cpu_points :: "ParticlePoint list"
  cpu_positions :: "real list"
  cpu_colors :: "real list"
  cpu_sizes :: "real list"

definition prefill ::
  "(string \<Rightarrow> vec3) \<Rightarrow> ParticlePoint list \<Rightarrow> real list \<times> real list \<Rightarrow> real list \<times> real list" where
  "prefill Color ps cs =
     fold (\<lambda>i (colors, sizes).
             let p = ps ! i; c = Color (p_color p)
             in (colors[i * 3 := fst c, i * 3 + 1 := fst (snd c), i * 3 + 2 := snd (snd c)],
                 sizes[i := p_size p]))
       [0..<length ps] cs"

definition cpu_scene ::
  "constants \<Rightarrow> (string \<Rightarrow> vec3) \<Rightarrow> (nat \<Rightarrow> real) \<Rightarrow> error + cpuData" where
  "cpu_scene K Color rnd =
     (let ps = cpu_particles K rnd
      in if PARTICLE_COUNT K * 3 < 0 then Inl RangeError
         else
           let n = nat (PARTICLE_COUNT K);
               cs = prefill Color ps (replicate (n * 3) 0, replicate n 0)
           in Inr \<lparr>cpu_points = ps, cpu_positions = replicate (n * 3) 0,
                    cpu_colors = fst cs, cpu_sizes = snd cs\<rparr>)"

text \<open>
  The body group of the earlier variant is recognised by its palette.
\<close>

definition body_palette :: "string set" where
  "body_palette = {''#C5A984'', ''#EAD6B8''}"

definition ring_palette :: "string set" where
  "ring_palette = {''#A89F91'', ''#8B7355''}"

text \<open>
  The share of the area of the annulus between the inner and the outer radius that lies
  within the radius \<open>r\<close>: what the distribution function of a radius that is uniform by
  area is at \<open>r\<close>.
\<close>

definition area_fraction :: "constants \<Rightarrow> real \<Rightarrow> real" where
  "area_fraction K r =
     (r\<^sup>2 - (RING_INNER_RADIUS K)\<^sup>2) / ((RING_OUTER_RADIUS K)\<^sup>2 - (RING_INNER_RADIUS K)\<^sup>2)"

section \<open>The frame loop and the vertex shader\<close>

text \<open>
  The state that \<^verbatim>\<open>useFrame\<close> of \<^verbatim>\<open>SaturnScene.tsx\<close> writes: the two uniforms and the
  rotation of the points object. One frame is given by whether \<^verbatim>\<open>pointsRef.current\<close> is
  set, the mode, and the elapsed time of the clock.
\<close>

record scene =
  uTime :: real
  uExpansion :: real
  rotation_x :: real
  rotation_y :: real
  rotation_z :: real

record tick =
  current :: bool
  expanded :: bool
  elapsedTime :: real

definition scene0 :: scene where
  "scene0 = \<lparr>uTime = 0, uExpansion = 0, rotation_x = 0, rotation_y = 0, rotation_z = 0\<rparr>"

definition useFrame :: "tick \<Rightarrow> scene \<Rightarrow> scene" where
  "useFrame f s =
     (let s1 = s\<lparr>uTime := elapsedTime f\<rparr>;
          target = (if expanded f then 1.0 else 0.0);
          s2 = s1\<lparr>uExpansion := uExpansion s1 + (target - uExpansion s1) * 0.04\<rparr>
      in if current f
         then (let s3 = s2\<lparr>rotation_z := pi / 6, rotation_x := pi / 12\<rparr>
               in if \<not> expanded f then s3\<lparr>rotation_y := rotation_y s3 + 0.001\<rparr> else s3)
         else s2)"

definition frames :: "tick list \<Rightarrow> scene \<Rightarrow> scene" where
  "frames fs s = fold useFrame fs s"

text \<open>
  The functions of the shading language: \<^verbatim>\<open>clamp\<close>, \<^verbatim>\<open>smoothstep\<close> and \<^verbatim>\<open>mix\<close>.
\<close>

definition clamp :: "real \<Rightarrow> real \<Rightarrow> real \<Rightarrow> real" where
  "clamp x lo hi = min (max x lo) hi"

definition smoothstep :: "real \<Rightarrow> real \<Rightarrow> real \<Rightarrow> real" where
  "smoothstep edge0 edge1 x =
     (let t = clamp ((x - edge0) / (edge1 - edge0)) 0 1 in t * t * (3 - 2 * t))"

definition mix :: "real \<Rightarrow> real \<Rightarrow> real \<Rightarrow> real" where
  "mix a b t = a * (1 - t) + b * t"

text \<open>
  The vertex shader, up to the interpolated position: the two branch positions after their
  guarded movements, and \<^verbatim>\<open>finalPos\<close>. (The projection that follows is the camera's.)
\<close>

definition nebulaPos :: "real \<Rightarrow> real \<Rightarrow> vec3 \<Rightarrow> vec3" where
  "nebulaPos time expansion aRandomPosition =
     (case aRandomPosition of (ax, ay, az) \<Rightarrow>
        if expansion > 0.01
        then (let noiseFreq = 0.5; noiseAmp = 2.0
              in (ax + sin (time * 0.5 + ay * noiseFreq) * noiseAmp,
                  ay + cos (time * 0.3 + ax * noiseFreq) * noiseAmp,
                  az + sin (time * 0.4 + az * noiseFreq) * noiseAmp))
        else (ax, ay, az))"

definition saturnPos :: "real \<Rightarrow> real \<Rightarrow> vec3 \<Rightarrow> vec3" where
  "saturnPos time expansion position =
     (case position of (px, py, pz) \<Rightarrow>
        if expansion < 0.99 then (px, py + sin (time * 2.0 + px) * 0.1, pz) else (px, py, pz))"

definition finalPos :: "real \<Rightarrow> real \<Rightarrow> vec3 \<Rightarrow> vec3 \<Rightarrow> vec3" where
  "finalPos time expansion position aRandomPosition =
     (let t = smoothstep 0.0 1.0 expansion
      in case (saturnPos time expansion position, nebulaPos time expansion aRandomPosition) of
           ((sx, sy, sz), (nx, ny, nz)) \<Rightarrow> (mix sx nx t, mix sy ny t, mix sz nz t))"

definition vAlpha :: "real \<Rightarrow> real" where
  "vAlpha expansion = 1.0 - (smoothstep 0.0 1.0 expansion * 0.3)"

text \<open>
  The frame loop of the earlier variant, for one particle: the target of particle \<open>i\<close> in
  the current mode, and the step of its position towards the target.
\<close>

definition target :: "bool \<Rightarrow> real \<Rightarrow> nat \<Rightarrow> ParticlePoint \<Rightarrow> vec3" where
  "target isExp time i p =
     (if isExp
      then (initialX p + randomX p + sin (time + real i) * 2,
            initialY p + randomY p + cos (time + real i) * 2,
            initialZ p + randomZ p + sin (time * 0.5 + real i) * 2)
      else (let rotationSpeed = 0.2;
                cosRot = cos (time * rotationSpeed);
                sinRot = sin (time * rotationSpeed);
                targetX = initialX p * cosRot - initialZ p * sinRot;
                targetY = initialY p;
                targetZ = initialX p * sinRot + initialZ p * cosRot
            in (targetX, targetY + sin (time * 2 + initialX p) * 0.1, targetZ)))"

definition lerp_step :: "bool \<Rightarrow> real \<Rightarrow> nat \<Rightarrow> ParticlePoint \<Rightarrow> real list \<Rightarrow> real list" where
  "lerp_step isExp time i p positionsArray =
     (case target isExp time i p of (targetX, targetY, targetZ) \<Rightarrow>
        let i3 = i * 3;
            currentX = positionsArray ! i3;
            currentY = positionsArray ! (i3 + 1);
            currentZ = positionsArray ! (i3 + 2);
            lerpSpeed = (if isExp then 0.03 else 0.05)
        in positionsArray
             [i3 := currentX + (targetX - currentX) * lerpSpeed,
              i3 + 1 := currentY + (targetY - currentY) * lerpSpeed,
              i3 + 2 := currentZ + (targetZ - currentZ) * lerpSpeed])"

text \<open>
  The frame loop of the earlier variant over all particles. It returns at once when
  \<^verbatim>\<open>pointsRef.current\<close> is not set; reading a particle beyond the end of \<^verbatim>\<open>particles\<close>
  would throw. The loop writes the position array and nothing else.
\<close>

definition cpu_frame :: "bool \<Rightarrow> int \<Rightarrow> bool \<Rightarrow> real \<Rightarrow> cpuData \<Rightarrow> error + cpuData" where
  "cpu_frame cur particleCount isExp time d =
     (if \<not> cur then Inr d
      else
        case fold (\<lambda>i acc.
                case acc of
                  Inl e \<Rightarrow> Inl e
                | Inr arr \<Rightarrow>
                    (case elem_at (cpu_points d) i of
                       None \<Rightarrow> Inl TypeError
                     | Some p \<Rightarrow> Inr (lerp_step isExp time i p arr)))
               [0..<nat particleCount] (Inr (cpu_positions d))
        of Inl e \<Rightarrow> Inl e
         | Inr arr \<Rightarrow> Inr (d\<lparr>cpu_positions := arr\<rparr>))"

section \<open>The gesture handler\<close>

text \<open>
  C10. The handler called with the signal NONE, whatever render it is the closure of,
  leaves the mode, the current phrase and the remaining indices as they are and selects no
  phrase; the stored gesture state becomes NONE. The camera path drops a NONE response
  before the handler, and then nothing changes at all.
\<close>

theorem handler_NONE_frame:
  "handleGestureDetected PHRASES u r NONE s = s\<lparr>gestureState := NONE\<rparr>
   \<and> isExpanded (handleGestureDetected PHRASES u r NONE s) = isExpanded s
   \<and> currentPhrase (handleGestureDetected PHRASES u r NONE s) = currentPhrase s
   \<and> availableIndices (handleGestureDetected PHRASES u r NONE s) = availableIndices s
   \<and> phraseCalls (handleGestureDetected PHRASES u r NONE s) = phraseCalls s
   \<and> gestureState (handleGestureDetected PHRASES u r NONE s) = NONE
   \<and> onResponse PHRASES u r NONE s = s"
  by (simp add: handleGestureDetected_def onResponse_def)

text \<open>
  C4, on the code. The analysis loop that starts in the initial render keeps the handler of
  that render, which reads \<^verbatim>\<open>isExpanded = false\<close> for ever. Given the responses CLOSED, OPEN,
  OPEN, CLOSED, CLOSED it leaves the modes collapsed, expanded, expanded, expanded,
  expanded: the second OPEN selects a phrase again (two calls of the selector), and no
  CLOSED ever leads back to the collapsed mode.
\<close>

theorem camera_gesture_sequence:
  "map isExpanded (feed PHRASES (initial PHRASES)
       [(u1, CLOSED), (u2, OPEN), (u3, OPEN), (u4, CLOSED), (u5, CLOSED)] (initial PHRASES))
     = [False, True, True, True, True]
   \<and> entries True False (map isExpanded (feed PHRASES (initial PHRASES)
        [(u1, CLOSED), (u2, OPEN), (u3, OPEN), (u4, CLOSED), (u5, CLOSED)] (initial PHRASES))) = 1
   \<and> entries False False (map isExpanded (feed PHRASES (initial PHRASES)
        [(u1, CLOSED), (u2, OPEN), (u3, OPEN), (u4, CLOSED), (u5, CLOSED)] (initial PHRASES))) = 0
   \<and> map phraseCalls (feed PHRASES (initial PHRASES)
        [(u1, CLOSED), (u2, OPEN), (u3, OPEN), (u4, CLOSED), (u5, CLOSED)] (initial PHRASES))
      = [0, 1, 2, 2, 2]
   \<and> map gestureState (feed PHRASES (initial PHRASES)
        [(u1, CLOSED), (u2, OPEN), (u3, OPEN), (u4, CLOSED), (u5, CLOSED)] (initial PHRASES))
      = [CLOSED, OPEN, OPEN, CLOSED, CLOSED]"
  by (simp add: onResponse_def handleGestureDetected_def triggerNewPhrase_def initial_def Let_def)

text \<open>
  C7, on the code. The toggle and the handler of one and the same render agree: the toggle
  is the handler fed the signal that changes the mode of that render. But the button runs
  the closure of the latest render and the analysis loop the handler of the render it
  started in. After one click from the initial state the mode is expanded; a second click
  reforms, while the response CLOSED through the loop that started in the initial render
  leaves the mode expanded.
\<close>

theorem toggle_and_camera:
  "handleManualToggle PHRASES u r s =
     handleGestureDetected PHRASES u r (if isExpanded r then CLOSED else OPEN) s
   \<and> isExpanded (click PHRASES u1 (initial PHRASES)) = True
   \<and> isExpanded (click PHRASES u2 (click PHRASES u1 (initial PHRASES))) = False
   \<and> gestureState (click PHRASES u2 (click PHRASES u1 (initial PHRASES))) = CLOSED
   \<and> isExpanded (onResponse PHRASES u2 (initial PHRASES) CLOSED
        (click PHRASES u1 (initial PHRASES))) = True
   \<and> gestureState (onResponse PHRASES u2 (initial PHRASES) CLOSED
        (click PHRASES u1 (initial PHRASES))) = CLOSED
   \<and> phraseCalls (onResponse PHRASES u2 (initial PHRASES) CLOSED
        (click PHRASES u1 (initial PHRASES)))
       = phraseCalls (click PHRASES u2 (click PHRASES u1 (initial PHRASES)))"
  by (simp add: click_def handleManualToggle_def onResponse_def handleGestureDetected_def
      triggerNewPhrase_def initial_def Let_def)

section \<open>The phrase selector\<close>

lemma random_index_less:
  assumes "0 \<le> u" "u < 1" "0 < n"
  shows "nat \<lfloor>u * real n\<rfloor> < n"
proof -
  have "u * real n < real n" using assms by simp
  then have "\<lfloor>u * real n\<rfloor> < int n" by (simp add: floor_less_iff)
  then show ?thesis using assms by linarith
qed

lemma mset_splice1:
  "i < length xs \<Longrightarrow> add_mset (xs ! i) (mset (splice1 xs i)) = mset xs"
  unfolding splice1_def
  by (metis append_take_drop_id Cons_nth_drop_Suc mset.simps(2) mset_append union_mset_add_mset_right)

lemma length_splice1: "i < length xs \<Longrightarrow> length (splice1 xs i) = length xs - 1"
  by (auto simp: splice1_def)

lemma set_splice1: "set (splice1 xs i) \<subseteq> set xs"
  by (auto simp: splice1_def dest: in_set_takeD in_set_dropD)

text \<open>
  One selection by a closure whose render has a non-empty set of remaining indices, all of
  them indices of the pool: the drawn position is in range, the index there is removed,
  its phrase is shown.
\<close>

lemma trigger_nonempty:
  assumes "availableIndices r \<noteq> []" "0 \<le> u" "u < 1"
    and "\<forall>i\<in>set (availableIndices r). i < length P"
  shows "nat \<lfloor>u * real (length (availableIndices r))\<rfloor> < length (availableIndices r)
    \<and> availableIndices (triggerNewPhrase P u r s)
        = splice1 (availableIndices r) (nat \<lfloor>u * real (length (availableIndices r))\<rfloor>)
    \<and> currentPhrase (triggerNewPhrase P u r s)
        = Some (P ! (availableIndices r ! nat \<lfloor>u * real (length (availableIndices r))\<rfloor>))"
proof -
  let ?xs = "availableIndices r"
  let ?r = "nat \<lfloor>u * real (length ?xs)\<rfloor>"
  have r: "?r < length ?xs" using assms by (intro random_index_less) auto
  then have "?xs ! ?r \<in> set ?xs" by simp
  then have "?xs ! ?r < length P" using assms(4) by blast
  then show ?thesis using r assms(1)
    by (simp add: triggerNewPhrase_def Let_def elem_at_def)
qed

text \<open>
  A pair of clicks from the collapsed mode: the first selects with the current indices,
  the second only reforms.
\<close>

lemma click_pair:
  assumes "\<not> isExpanded s"
  shows "click P u s = triggerNewPhrase P u s (s\<lparr>isExpanded := True, gestureState := OPEN\<rparr>)
    \<and> \<not> isExpanded (click P v (click P u s))
    \<and> availableIndices (click P v (click P u s)) = availableIndices (click P u s)"
  using assms
  by (simp add: click_def handleManualToggle_def triggerNewPhrase_def Let_def)

text \<open>
  With the button, as many selections as there are remaining indices use each of them once
  and leave none.
\<close>

lemma manual_selections_cycle:
  assumes "\<forall>u\<in>set us. 0 \<le> u \<and> u < 1"
    and "length us = length (availableIndices s)"
    and "\<forall>i\<in>set (availableIndices s). i < length P"
    and "\<not> isExpanded s"
  shows "mset (fst (manual_selections P us s))
      = image_mset (\<lambda>i. Some (P ! i)) (mset (availableIndices s))
    \<and> availableIndices (snd (manual_selections P us s)) = []
    \<and> \<not> isExpanded (snd (manual_selections P us s))"
  using assms
proof (induction us arbitrary: s)
  case Nil
  then show ?case by simp
next
  case (Cons u us)
  let ?xs = "availableIndices s"
  let ?r = "nat \<lfloor>u * real (length ?xs)\<rfloor>"
  let ?s1 = "click P u s"
  let ?s2 = "click P u ?s1"
  note cp = click_pair[OF Cons.prems(4), of P u u]
  have ne: "?xs \<noteq> []" using Cons.prems(2) by auto
  have u: "0 \<le> u" "u < 1" using Cons.prems(1) by auto
  note t = trigger_nonempty[OF ne u Cons.prems(3), of "s\<lparr>isExpanded := True, gestureState := OPEN\<rparr>"]
  have r: "?r < length ?xs" using t by blast
  have cp1: "?s1 = triggerNewPhrase P u s (s\<lparr>isExpanded := True, gestureState := OPEN\<rparr>)"
    using cp by blast
  have cp3: "availableIndices ?s2 = availableIndices ?s1" using cp by blast
  have av1: "availableIndices ?s1 = splice1 ?xs ?r" unfolding cp1 using t by blast
  have ph: "currentPhrase ?s1 = Some (P ! (?xs ! ?r))" unfolding cp1 using t by blast
  have av: "availableIndices ?s2 = splice1 ?xs ?r" by (simp only: cp3 av1)
  have ex: "\<not> isExpanded ?s2" using cp by blast
  have len: "length us = length (availableIndices ?s2)"
    using Cons.prems(2) r by (simp add: av length_splice1)
  have bnd: "\<forall>i\<in>set (availableIndices ?s2). i < length P"
    using Cons.prems(3) set_splice1[of ?xs ?r] by (auto simp: av)
  have us: "\<forall>u\<in>set us. 0 \<le> u \<and> u < 1" using Cons.prems(1) by simp
  note ih = Cons.IH[OF us len bnd ex]
  have "mset (fst (manual_selections P (u # us) s))
      = add_mset (Some (P ! (?xs ! ?r))) (image_mset (\<lambda>i. Some (P ! i)) (mset (splice1 ?xs ?r)))"
    using ih by (simp add: Let_def ph av)
  also have "\<dots> = image_mset (\<lambda>i. Some (P ! i)) (add_mset (?xs ! ?r) (mset (splice1 ?xs ?r)))"
    by simp
  also have "\<dots> = image_mset (\<lambda>i. Some (P ! i)) (mset ?xs)"
    by (simp only: mset_splice1[OF r])
  finally show ?case using ih by (simp add: Let_def)
qed

lemma image_mset_nth_upt: "image_mset (\<lambda>i. f (P ! i)) (mset [0..<length P]) = mset (map f P)"
proof -
  have "map (\<lambda>i. f (P ! i)) [0..<length P] = map f (map ((!) P) [0..<length P])" by simp
  also have "\<dots> = map f P" by (simp only: map_nth)
  finally show ?thesis by (metis mset_map)
qed

text \<open>
  The selector does what its comments say on the path of the button: from the collapsed
  mode with all \<open>K\<close> indices remaining, \<open>K\<close> dispersing clicks show every entry of the pool
  exactly once.
\<close>

lemma manual_phrase_cycle:
  assumes "length us = length P"
    and "\<forall>u\<in>set us. 0 \<le> u \<and> u < 1"
    and "availableIndices s = [0..<length P]"
    and "\<not> isExpanded s"
  shows "mset (fst (manual_selections P us s)) = mset (map Some P)
    \<and> (distinct P \<longrightarrow> distinct (fst (manual_selections P us s)))"
proof -
  let ?ps = "fst (manual_selections P us s)"
  have len: "length us = length (availableIndices s)" using assms(1,3) by simp
  have bnd: "\<forall>i\<in>set (availableIndices s). i < length P" using assms(3) by simp
  note c = manual_selections_cycle[OF assms(2) len bnd assms(4)]
  have "mset ?ps = image_mset (\<lambda>i. Some (P ! i)) (mset [0..<length P])"
    using c unfolding assms(3) by blast
  then have m: "mset ?ps = mset (map Some P)"
    by (simp only: image_mset_nth_upt)
  have "distinct P \<longrightarrow> distinct ?ps"
  proof
    assume "distinct P"
    then have "distinct (map Some P)" by (simp add: distinct_map)
    then show "distinct ?ps" using m by (metis mset_eq_imp_distinct_iff)
  qed
  then show ?thesis using m by blast
qed

text \<open>
  C5, on the code. On the path of the classifier the selector repeats within a cycle. The
  handler that the analysis loop keeps calls the \<^verbatim>\<open>triggerNewPhrase\<close> of the render the loop
  started in, which reads the index list of that render, not the list the last selection
  left. With the pool of the two phrases \<open>a\<close> and \<open>b\<close> and the loop started in the initial
  render, two responses OPEN whose draws are 1/4 and 1/3 (any two draws below 1/2 do)
  select the phrase \<open>a\<close> twice, and the index list after each is \<open>[1]\<close>.
\<close>

theorem camera_selection_repeats:
  "map currentPhrase (feed [''a'', ''b''] (initial [''a'', ''b''])
       [(1 / 4, OPEN), (1 / 3, OPEN)] (initial [''a'', ''b''])) = [Some ''a'', Some ''a'']
   \<and> map phraseCalls (feed [''a'', ''b''] (initial [''a'', ''b''])
       [(1 / 4, OPEN), (1 / 3, OPEN)] (initial [''a'', ''b''])) = [1, 2]
   \<and> map availableIndices (feed [''a'', ''b''] (initial [''a'', ''b''])
       [(1 / 4, OPEN), (1 / 3, OPEN)] (initial [''a'', ''b''])) = [[1], [1]]"
  by (simp add: onResponse_def handleGestureDetected_def triggerNewPhrase_def initial_def
      Let_def elem_at_def splice1_def)

section \<open>The transition driver\<close>

lemma useFrame_uExpansion:
  "uExpansion (useFrame f s) = uExpansion s + ((if expanded f then 1 else 0) - uExpansion s) * 0.04"
  by (simp add: useFrame_def Let_def)

lemma frames_Cons: "frames (f # fs) s = frames fs (useFrame f s)"
  by (simp add: frames_def)

lemma frames_append: "frames (fs @ gs) s = frames gs (frames fs s)"
  by (simp add: frames_def)

lemma blend_step_range:
  assumes "0 \<le> uExpansion s" "uExpansion s < 1"
  shows "0 \<le> uExpansion (useFrame f s) \<and> uExpansion (useFrame f s) < 1"
proof (cases "expanded f")
  case True
  then have "uExpansion (useFrame f s) = uExpansion s + (1 - uExpansion s) / 25"
    by (simp add: useFrame_uExpansion)
  then show ?thesis using assms by (simp add: field_simps)
next
  case False
  then have "uExpansion (useFrame f s) = uExpansion s - uExpansion s / 25"
    by (simp add: useFrame_uExpansion)
  then show ?thesis using assms by (simp add: field_simps)
qed

lemma blend_range:
  assumes "0 \<le> uExpansion s" "uExpansion s < 1"
  shows "0 \<le> uExpansion (frames fs s) \<and> uExpansion (frames fs s) < 1"
  using assms
proof (induction fs arbitrary: s)
  case Nil
  then show ?case by (simp add: frames_def)
next
  case (Cons f fs)
  then show ?case using blend_step_range[of s f] by (simp add: frames_Cons)
qed

lemma blend_dispersed:
  assumes "\<forall>f\<in>set fs. expanded f"
  shows "1 - uExpansion (frames fs s) = (1 - uExpansion s) * (24 / 25) ^ length fs"
  using assms
proof (induction fs arbitrary: s)
  case Nil
  then show ?case by (simp add: frames_def)
next
  case (Cons f fs)
  then have "1 - uExpansion (frames fs (useFrame f s)) = (1 - uExpansion (useFrame f s)) * (24 / 25) ^ length fs"
    by simp
  moreover have "1 - uExpansion (useFrame f s) = (1 - uExpansion s) * (24 / 25)"
    using Cons.prems by (simp add: useFrame_uExpansion field_simps)
  ultimately show ?case by (simp add: frames_Cons)
qed

lemma pow113: "(24 / 25 :: real) ^ 113 < 1 / 100"
  by (simp add: power_divide)

text \<open>
  C3. From the blend 0 of the initial scene, after any sequence of frames the blend is at
  least 0 and at most 1, and it is never equal to 1. After any such sequence, 113 or more
  frames in a row in the expanded mode bring the blend within 0.01 of 1. (The numbers are
  real numbers here; the rate is the constant 0.04 of the source.)
\<close>

theorem blend_bounds:
  assumes "\<forall>f\<in>set gs. expanded f" and "113 \<le> length gs"
  shows "0 \<le> uExpansion (frames fs scene0) \<and> uExpansion (frames fs scene0) \<le> 1
    \<and> uExpansion (frames fs scene0) \<noteq> 1
    \<and> \<bar>1 - uExpansion (frames (fs @ gs) scene0)\<bar> < 1 / 100"
proof -
  have z: "0 \<le> uExpansion scene0" "uExpansion scene0 < 1" by (simp_all add: scene0_def)
  note r = blend_range[OF z, of fs]
  let ?b = "uExpansion (frames fs scene0)"
  have "1 - uExpansion (frames (fs @ gs) scene0) = (1 - ?b) * (24 / 25) ^ length gs"
    using blend_dispersed[OF assms(1), of "frames fs scene0"] by (simp add: frames_append)
  moreover have "(24 / 25 :: real) ^ length gs \<le> (24 / 25) ^ 113"
    using assms(2) by (intro power_decreasing) simp_all
  then have "(24 / 25 :: real) ^ length gs < 1 / 100" using pow113 by linarith
  moreover have "0 \<le> (24 / 25 :: real) ^ length gs" by simp
  moreover have "(1 - ?b) * (24 / 25) ^ length gs \<le> 1 * (24 / 25) ^ length gs"
    using r by (intro mult_right_mono) simp_all
  moreover have "0 \<le> (1 - ?b) * (24 / 25) ^ length gs" using r by simp
  ultimately have "\<bar>1 - uExpansion (frames (fs @ gs) scene0)\<bar> < 1 / 100" by linarith
  then show ?thesis using r by simp
qed

theorem blend_bounds_witness:
  "\<bar>1 - uExpansion (frames
      (replicate 113 \<lparr>current = True, expanded = True, elapsedTime = 0\<rparr>) scene0)\<bar> < 1 / 100"
  using blend_bounds[of "replicate 113 \<lparr>current = True, expanded = True, elapsedTime = 0\<rparr>" "[]"]
  by simp

section \<open>The vertex shader\<close>

lemma smoothstep_range: "0 \<le> smoothstep 0 1 x \<and> smoothstep 0 1 x \<le> 1"
proof -
  define t where "t = clamp x 0 1"
  have t: "0 \<le> t" "t \<le> 1" by (simp_all add: t_def clamp_def)
  have s: "smoothstep 0 1 x = t * t * (3 - 2 * t)" by (simp add: smoothstep_def t_def Let_def)
  have "0 \<le> t * t * (3 - 2 * t)" using t by simp
  moreover have "1 - t * t * (3 - 2 * t) = (1 - t) * (1 - t) * (1 + 2 * t)"
    by (simp add: algebra_simps)
  moreover have "0 \<le> (1 - t) * (1 - t) * (1 + 2 * t)" using t by simp
  ultimately show ?thesis unfolding s by linarith
qed

lemma mix_between:
  assumes "0 \<le> t" "t \<le> 1"
  shows "min a b \<le> mix a b t \<and> mix a b t \<le> max a b"
proof -
  have 1: "mix a b t = a + (b - a) * t" by (simp add: mix_def algebra_simps)
  have 2: "mix a b t = b - (b - a) * (1 - t)" by (simp add: mix_def algebra_simps)
  show ?thesis
  proof (cases "a \<le> b")
    case True
    then have "0 \<le> (b - a) * t" "0 \<le> (b - a) * (1 - t)" using assms by simp_all
    then show ?thesis using True 1 2 by (simp add: min_def max_def)
  next
    case False
    then have "(b - a) * t \<le> 0" "(b - a) * (1 - t) \<le> 0"
      using assms by (simp_all add: mult_nonpos_nonneg)
    then show ?thesis using False 1 2 by (simp add: min_def max_def)
  qed
qed

text \<open>
  C8, as the code has it. The position that the vertex shader computes for a particle is,
  in each coordinate, \<open>s (1 - w) + n w\<close>, where the weight \<open>w\<close> is the cubic
  \<open>c\<^sup>2 (3 - 2 c)\<close> of the blend \<open>c\<close> clamped to \<open>[0, 1]\<close> and not the blend itself, \<open>s\<close> is the
  compact branch and \<open>n\<close> the dispersed branch. The compact branch is the home position with
  the vertical bob while the blend is below 0.99, and the bare home position from 0.99 on;
  the dispersed branch is the scatter position with the wander while the blend is above
  0.01, and the bare scatter position up to 0.01. At the blend 0 the position is the home
  position with the bob, at the blend 1 the scatter position with the wander. At every
  blend each coordinate lies between the values of the two branches, and for a blend
  between 0.01 and 0.99 these are the values of the two formulas.
\<close>

theorem shader_position:
  "finalPos time blend (px, py, pz) (ax, ay, az) =
     (let w = (min (max blend 0) 1)\<^sup>2 * (3 - 2 * min (max blend 0) 1);
          bob = (if blend < 0.99 then sin (time * 2 + px) * 0.1 else 0);
          wx = (if blend > 0.01 then sin (time * 0.5 + ay * 0.5) * 2 else 0);
          wy = (if blend > 0.01 then cos (time * 0.3 + ax * 0.5) * 2 else 0);
          wz = (if blend > 0.01 then sin (time * 0.4 + az * 0.5) * 2 else 0)
      in (px * (1 - w) + (ax + wx) * w,
          (py + bob) * (1 - w) + (ay + wy) * w,
          pz * (1 - w) + (az + wz) * w))
   \<and> finalPos time 0 (px, py, pz) (ax, ay, az) = (px, py + sin (time * 2 + px) * 0.1, pz)
   \<and> finalPos time 1 (px, py, pz) (ax, ay, az)
       = (ax + sin (time * 0.5 + ay * 0.5) * 2,
          ay + cos (time * 0.3 + ax * 0.5) * 2,
          az + sin (time * 0.4 + az * 0.5) * 2)
   \<and> saturnPos time blend (px, py, pz)
       = (if blend < 0.99 then (px, py + sin (time * 2 + px) * 0.1, pz) else (px, py, pz))
   \<and> nebulaPos time blend (ax, ay, az)
       = (if blend > 0.01
          then (ax + sin (time * 0.5 + ay * 0.5) * 2,
                ay + cos (time * 0.3 + ax * 0.5) * 2,
                az + sin (time * 0.4 + az * 0.5) * 2)
          else (ax, ay, az))
   \<and> min (fst (saturnPos time blend (px, py, pz))) (fst (nebulaPos time blend (ax, ay, az)))
         \<le> fst (finalPos time blend (px, py, pz) (ax, ay, az))
   \<and> fst (finalPos time blend (px, py, pz) (ax, ay, az))
         \<le> max (fst (saturnPos time blend (px, py, pz))) (fst (nebulaPos time blend (ax, ay, az)))
   \<and> min (fst (snd (saturnPos time blend (px, py, pz))))
           (fst (snd (nebulaPos time blend (ax, ay, az))))
         \<le> fst (snd (finalPos time blend (px, py, pz) (ax, ay, az)))
   \<and> fst (snd (finalPos time blend (px, py, pz) (ax, ay, az)))
         \<le> max (fst (snd (saturnPos time blend (px, py, pz))))
               (fst (snd (nebulaPos time blend (ax, ay, az))))
   \<and> min (snd (snd (saturnPos time blend (px, py, pz))))
           (snd (snd (nebulaPos time blend (ax, ay, az))))
         \<le> snd (snd (finalPos time blend (px, py, pz) (ax, ay, az)))
   \<and> snd (snd (finalPos time blend (px, py, pz) (ax, ay, az)))
         \<le> max (snd (snd (saturnPos time blend (px, py, pz))))
               (snd (snd (nebulaPos time blend (ax, ay, az))))
   \<and> (1 / 100 < blend \<and> blend < 99 / 100 \<longrightarrow>
         min px (ax + sin (time * 0.5 + ay * 0.5) * 2)
           \<le> fst (finalPos time blend (px, py, pz) (ax, ay, az))
       \<and> fst (finalPos time blend (px, py, pz) (ax, ay, az))
           \<le> max px (ax + sin (time * 0.5 + ay * 0.5) * 2)
       \<and> min (py + sin (time * 2 + px) * 0.1) (ay + cos (time * 0.3 + ax * 0.5) * 2)
           \<le> fst (snd (finalPos time blend (px, py, pz) (ax, ay, az)))
       \<and> fst (snd (finalPos time blend (px, py, pz) (ax, ay, az)))
           \<le> max (py + sin (time * 2 + px) * 0.1) (ay + cos (time * 0.3 + ax * 0.5) * 2)
       \<and> min pz (az + sin (time * 0.4 + az * 0.5) * 2)
           \<le> snd (snd (finalPos time blend (px, py, pz) (ax, ay, az)))
       \<and> snd (snd (finalPos time blend (px, py, pz) (ax, ay, az)))
           \<le> max pz (az + sin (time * 0.4 + az * 0.5) * 2))"
proof -
  let ?p = "(px, py, pz)" and ?a = "(ax, ay, az)"
  have s0: "smoothstep 0 1 0 = 0" and s1: "smoothstep 0 1 1 = 1"
    by (simp_all add: smoothstep_def clamp_def)
  have g1: "saturnPos time blend ?p
       = (if blend < 0.99 then (px, py + sin (time * 2 + px) * 0.1, pz) else (px, py, pz))"
    by (simp add: saturnPos_def)
  have g2: "nebulaPos time blend ?a
       = (if blend > 0.01
          then (ax + sin (time * 0.5 + ay * 0.5) * 2,
                ay + cos (time * 0.3 + ax * 0.5) * 2,
                az + sin (time * 0.4 + az * 0.5) * 2)
          else (ax, ay, az))"
    by (simp add: nebulaPos_def Let_def)
  have ex: "finalPos time blend ?p ?a =
     (let w = (min (max blend 0) 1)\<^sup>2 * (3 - 2 * min (max blend 0) 1);
          bob = (if blend < 0.99 then sin (time * 2 + px) * 0.1 else 0);
          wx = (if blend > 0.01 then sin (time * 0.5 + ay * 0.5) * 2 else 0);
          wy = (if blend > 0.01 then cos (time * 0.3 + ax * 0.5) * 2 else 0);
          wz = (if blend > 0.01 then sin (time * 0.4 + az * 0.5) * 2 else 0)
      in (px * (1 - w) + (ax + wx) * w,
          (py + bob) * (1 - w) + (ay + wy) * w,
          pz * (1 - w) + (az + wz) * w))"
    by (simp add: finalPos_def g1 g2 Let_def smoothstep_def clamp_def mix_def power2_eq_square)
  have c0: "finalPos time 0 ?p ?a = (px, py + sin (time * 2 + px) * 0.1, pz)"
    by (simp add: finalPos_def Let_def s0 saturnPos_def nebulaPos_def mix_def)
  have c1: "finalPos time 1 ?p ?a
       = (ax + sin (time * 0.5 + ay * 0.5) * 2,
          ay + cos (time * 0.3 + ax * 0.5) * 2,
          az + sin (time * 0.4 + az * 0.5) * 2)"
    by (simp add: finalPos_def Let_def s1 saturnPos_def nebulaPos_def mix_def)
  have f: "finalPos time blend ?p ?a
      = (mix (fst (saturnPos time blend ?p)) (fst (nebulaPos time blend ?a)) (smoothstep 0 1 blend),
         mix (fst (snd (saturnPos time blend ?p))) (fst (snd (nebulaPos time blend ?a)))
           (smoothstep 0 1 blend),
         mix (snd (snd (saturnPos time blend ?p))) (snd (snd (nebulaPos time blend ?a)))
           (smoothstep 0 1 blend))"
    by (simp add: finalPos_def Let_def split: prod.splits)
  note r = smoothstep_range[of blend]
  note m = mix_between[of "smoothstep 0 1 blend"]
  have b: "min (fst (saturnPos time blend ?p)) (fst (nebulaPos time blend ?a))
         \<le> fst (finalPos time blend ?p ?a)
   \<and> fst (finalPos time blend ?p ?a)
         \<le> max (fst (saturnPos time blend ?p)) (fst (nebulaPos time blend ?a))
   \<and> min (fst (snd (saturnPos time blend ?p))) (fst (snd (nebulaPos time blend ?a)))
         \<le> fst (snd (finalPos time blend ?p ?a))
   \<and> fst (snd (finalPos time blend ?p ?a))
         \<le> max (fst (snd (saturnPos time blend ?p))) (fst (snd (nebulaPos time blend ?a)))
   \<and> min (snd (snd (saturnPos time blend ?p))) (snd (snd (nebulaPos time blend ?a)))
         \<le> snd (snd (finalPos time blend ?p ?a))
   \<and> snd (snd (finalPos time blend ?p ?a))
         \<le> max (snd (snd (saturnPos time blend ?p))) (snd (snd (nebulaPos time blend ?a)))"
    unfolding f fst_conv snd_conv using r m by simp
  have i: "1 / 100 < blend \<and> blend < 99 / 100 \<longrightarrow>
         min px (ax + sin (time * 0.5 + ay * 0.5) * 2) \<le> fst (finalPos time blend ?p ?a)
       \<and> fst (finalPos time blend ?p ?a) \<le> max px (ax + sin (time * 0.5 + ay * 0.5) * 2)
       \<and> min (py + sin (time * 2 + px) * 0.1) (ay + cos (time * 0.3 + ax * 0.5) * 2)
           \<le> fst (snd (finalPos time blend ?p ?a))
       \<and> fst (snd (finalPos time blend ?p ?a))
           \<le> max (py + sin (time * 2 + px) * 0.1) (ay + cos (time * 0.3 + ax * 0.5) * 2)
       \<and> min pz (az + sin (time * 0.4 + az * 0.5) * 2) \<le> snd (snd (finalPos time blend ?p ?a))
       \<and> snd (snd (finalPos time blend ?p ?a)) \<le> max pz (az + sin (time * 0.4 + az * 0.5) * 2)"
  proof
    assume h: "1 / 100 < blend \<and> blend < 99 / 100"
    then have "saturnPos time blend ?p = (px, py + sin (time * 2 + px) * 0.1, pz)"
      and "nebulaPos time blend ?a = (ax + sin (time * 0.5 + ay * 0.5) * 2,
                ay + cos (time * 0.3 + ax * 0.5) * 2,
                az + sin (time * 0.4 + az * 0.5) * 2)"
      by (simp_all add: g1 g2)
    then show "min px (ax + sin (time * 0.5 + ay * 0.5) * 2) \<le> fst (finalPos time blend ?p ?a)
       \<and> fst (finalPos time blend ?p ?a) \<le> max px (ax + sin (time * 0.5 + ay * 0.5) * 2)
       \<and> min (py + sin (time * 2 + px) * 0.1) (ay + cos (time * 0.3 + ax * 0.5) * 2)
           \<le> fst (snd (finalPos time blend ?p ?a))
       \<and> fst (snd (finalPos time blend ?p ?a))
           \<le> max (py + sin (time * 2 + px) * 0.1) (ay + cos (time * 0.3 + ax * 0.5) * 2)
       \<and> min pz (az + sin (time * 0.4 + az * 0.5) * 2) \<le> snd (snd (finalPos time blend ?p ?a))
       \<and> snd (snd (finalPos time blend ?p ?a)) \<le> max pz (az + sin (time * 0.4 + az * 0.5) * 2)"
      using b by simp
  qed
  show ?thesis using ex c0 c1 g1 g2 b i by (simp only:)
qed

theorem shader_position_witness:
  "min 0 (1 + sin (0 * 0.5 + 0 * 0.5) * 2) \<le> fst (finalPos 0 (1 / 2) (0, 0, 0) (1, 0, 0))
   \<and> fst (finalPos 0 (1 / 2) (0, 0, 0) (1, 0, 0)) \<le> max 0 (1 + sin (0 * 0.5 + 0 * 0.5) * 2)
   \<and> fst (finalPos 0 (1 / 2) (0, 0, 0) (1, 0, 0)) = 1 / 2"
proof -
  have h: "(1 / 100 :: real) < 1 / 2 \<and> (1 / 2 :: real) < 99 / 100" by simp
  note t = shader_position[of 0 "1 / 2" 0 0 0 1 0 0]
  have e: "fst (finalPos 0 (1 / 2) (0, 0, 0) (1, 0, 0)) = 1 / 2"
    using t by (simp add: Let_def power2_eq_square)
  from t h have "min 0 (1 + sin (0 * 0.5 + 0 * 0.5) * 2) \<le> fst (finalPos 0 (1 / 2) (0, 0, 0) (1, 0, 0))
   \<and> fst (finalPos 0 (1 / 2) (0, 0, 0) (1, 0, 0)) \<le> max 0 (1 + sin (0 * 0.5 + 0 * 0.5) * 2)"
    by blast
  then show ?thesis using e by blast
qed

text \<open>
  C8 as stated fails in the two bands where a guard is off. At the blend 0.01 the wander is
  not yet added: with the home coordinate 0, the scatter coordinate 1 and a wander of -2
  the two formulas give 0 and -1, and the shader gives 149/500000, above both. At the
  blend 0.995 the bob is no longer added: with both formulas at 0.1 the shader gives
  3999701/40000000, below both.
\<close>

theorem shader_position_counterexample:
  "fst (finalPos 0 (1 / 100) (0, 0, 0) (1, - pi, 0)) = 149 / 500000
   \<and> 1 + sin (0 * 0.5 + (- pi) * 0.5) * 2 = (- 1 :: real)
   \<and> max 0 (1 + sin (0 * 0.5 + (- pi) * 0.5) * 2)
        < fst (finalPos 0 (1 / 100) (0, 0, 0) (1, - pi, 0))
   \<and> fst (snd (finalPos 0 (199 / 200) (pi / 2, 0, 0) (0, - 19 / 10, 0))) = 3999701 / 40000000
   \<and> 0 + sin (0 * 2 + pi / 2) * 0.1 = (1 / 10 :: real)
   \<and> - 19 / 10 + cos (0 * 0.3 + 0 * 0.5) * 2 = (1 / 10 :: real)
   \<and> fst (snd (finalPos 0 (199 / 200) (pi / 2, 0, 0) (0, - 19 / 10, 0)))
        < min (0 + sin (0 * 2 + pi / 2) * 0.1) (- 19 / 10 + cos (0 * 0.3 + 0 * 0.5) * 2)"
proof -
  have sm: "sin (- (pi / 2)) = - 1" by simp
  have a: "fst (finalPos 0 (1 / 100) (0, 0, 0) (1, - pi, 0)) = 149 / 500000"
    by (simp add: finalPos_def saturnPos_def nebulaPos_def smoothstep_def clamp_def mix_def
        Let_def)
  have b: "fst (snd (finalPos 0 (199 / 200) (pi / 2, 0, 0) (0, - 19 / 10, 0)))
      = 3999701 / 40000000"
    by (simp add: finalPos_def saturnPos_def nebulaPos_def smoothstep_def clamp_def mix_def
        Let_def)
  show ?thesis unfolding a b using sm by simp
qed

section \<open>The rotation of the field\<close>

lemma rotation_step:
  "rotation_y (useFrame f s)
     = rotation_y s + (if current f \<and> \<not> expanded f then 0.001 else 0)"
  by (simp add: useFrame_def Let_def)

text \<open>
  C9, as the code has it. In \<^verbatim>\<open>SaturnScene.tsx\<close> the rotation about the vertical axis grows
  by 0.001 in every frame that is rendered in the compact mode: after a sequence of frames
  it is 0.001 times the number of those frames, whatever the elapsed times and the blend
  are. In the earlier variant the compact target of a particle is its home position turned
  by the angle 0.2 times the elapsed time.
\<close>

theorem rotation_law:
  "rotation_y (frames fs s)
     = rotation_y s + 0.001 * real (length (filter (\<lambda>f. current f \<and> \<not> expanded f) fs))
   \<and> target False time i p
       = (initialX p * cos (time * 0.2) - initialZ p * sin (time * 0.2),
          initialY p + sin (time * 2 + initialX p) * 0.1,
          initialX p * sin (time * 0.2) + initialZ p * cos (time * 0.2))"
proof -
  have "rotation_y (frames fs s)
     = rotation_y s + 0.001 * real (length (filter (\<lambda>f. current f \<and> \<not> expanded f) fs))"
  proof (induction fs arbitrary: s)
    case Nil
    then show ?case by (simp add: frames_def)
  next
    case (Cons f fs)
    then show ?case by (simp add: frames_Cons rotation_step algebra_simps)
  qed
  then show ?thesis by (simp add: target_def Let_def)
qed

text \<open>
  C9 as stated fails on \<^verbatim>\<open>SaturnScene.tsx\<close>: the rotation is not a function of the
  elapsed time. Two runs that end at the same
  elapsed time, one of one frame and one of two frames, end with different rotations; and
  so do two runs with the same elapsed times that differ in the mode of the first frame.
\<close>

theorem rotation_counterexample:
  "uTime (frames [\<lparr>current = True, expanded = False, elapsedTime = 1\<rparr>] scene0)
     = uTime (frames [\<lparr>current = True, expanded = False, elapsedTime = 1 / 2\<rparr>,
                      \<lparr>current = True, expanded = False, elapsedTime = 1\<rparr>] scene0)
   \<and> rotation_y (frames [\<lparr>current = True, expanded = False, elapsedTime = 1\<rparr>] scene0)
     \<noteq> rotation_y (frames [\<lparr>current = True, expanded = False, elapsedTime = 1 / 2\<rparr>,
                      \<lparr>current = True, expanded = False, elapsedTime = 1\<rparr>] scene0)
   \<and> uTime (frames [\<lparr>current = True, expanded = True, elapsedTime = 1 / 2\<rparr>,
                    \<lparr>current = True, expanded = False, elapsedTime = 1\<rparr>] scene0)
     = uTime (frames [\<lparr>current = True, expanded = False, elapsedTime = 1 / 2\<rparr>,
                      \<lparr>current = True, expanded = False, elapsedTime = 1\<rparr>] scene0)
   \<and> rotation_y (frames [\<lparr>current = True, expanded = True, elapsedTime = 1 / 2\<rparr>,
                         \<lparr>current = True, expanded = False, elapsedTime = 1\<rparr>] scene0)
     \<noteq> rotation_y (frames [\<lparr>current = True, expanded = False, elapsedTime = 1 / 2\<rparr>,
                           \<lparr>current = True, expanded = False, elapsedTime = 1\<rparr>] scene0)"
  by (simp add: frames_def useFrame_def scene0_def Let_def)

section \<open>The radius of a ring particle\<close>

lemma ring_radius_mono:
  assumes "RING_INNER_RADIUS K < RING_OUTER_RADIUS K" "0 \<le> s" "s < t"
  shows "ring_radius K s < ring_radius K t"
proof -
  have "sqrt s < sqrt t" using assms(2,3) by simp
  then have "sqrt s * (RING_OUTER_RADIUS K - RING_INNER_RADIUS K)
      < sqrt t * (RING_OUTER_RADIUS K - RING_INNER_RADIUS K)"
    using assms(1) by (intro mult_strict_right_mono) simp_all
  then show ?thesis by (simp add: ring_radius_def)
qed

lemma area_fraction_ring:
  assumes "0 \<le> RING_INNER_RADIUS K" "RING_INNER_RADIUS K < RING_OUTER_RADIUS K" "0 \<le> t"
  shows "area_fraction K (ring_radius K t)
       = (t * (RING_OUTER_RADIUS K - RING_INNER_RADIUS K) + 2 * RING_INNER_RADIUS K * sqrt t)
         / (RING_OUTER_RADIUS K + RING_INNER_RADIUS K)"
proof -
  define a where "a = RING_INNER_RADIUS K"
  define b where "b = RING_OUTER_RADIUS K"
  define u where "u = sqrt t"
  have u: "u * u = t" using assms(3) by (simp add: u_def)
  have ab: "0 \<le> a" "a < b" using assms by (simp_all add: a_def b_def)
  have "(u * (b - a) + a)\<^sup>2 - a\<^sup>2 = (u * u) * (b - a)\<^sup>2 + 2 * a * u * (b - a)"
    by (simp add: power2_eq_square algebra_simps)
  also have "\<dots> = (t * (b - a) + 2 * a * u) * (b - a)"
    by (simp add: u power2_eq_square algebra_simps)
  finally have n: "(u * (b - a) + a)\<^sup>2 - a\<^sup>2 = (t * (b - a) + 2 * a * u) * (b - a)" .
  have d: "b\<^sup>2 - a\<^sup>2 = (b + a) * (b - a)" by (simp add: power2_eq_square algebra_simps)
  have "area_fraction K (ring_radius K t) = ((t * (b - a) + 2 * a * u) * (b - a)) / ((b + a) * (b - a))"
    unfolding area_fraction_def ring_radius_def a_def[symmetric] b_def[symmetric] u_def[symmetric]
    by (simp only: n d)
  also have "\<dots> = (t * (b - a) + 2 * a * u) / (b + a)" using ab by simp
  finally show ?thesis by (simp only: a_def b_def u_def)
qed

text \<open>
  C2, as the code has it. For an inner radius that is not negative and smaller than the
  outer radius, and \<open>t\<close> in \<open>[0, 1)\<close>: the radius lies in \<open>[inner, outer]\<close> and grows with
  \<open>t\<close>, so the share of the particles within the radius \<open>ring_radius K t\<close> is \<open>t\<close>. The
  square of \<open>(r - inner) / (outer - inner)\<close> is \<open>t\<close>: it is this quantity that is uniform.
  The share of the area of the annulus within the radius is at least \<open>t\<close>; it equals \<open>t\<close>
  only when the inner radius is 0 or \<open>t\<close> is 0, and for a positive inner radius and a
  positive \<open>t\<close> it is greater than \<open>t\<close>. So the radii are uniform by area exactly when the
  inner radius is 0; for a positive inner radius a disc around the inner edge holds a
  smaller share of the particles than of the area: the particles are sparser towards the
  inner edge and denser towards the outer edge than a distribution uniform by area.
\<close>

theorem ring_radius_distribution:
  assumes "0 \<le> RING_INNER_RADIUS K" and "RING_INNER_RADIUS K < RING_OUTER_RADIUS K"
    and "0 \<le> t" and "t < 1"
  shows "RING_INNER_RADIUS K \<le> ring_radius K t \<and> ring_radius K t \<le> RING_OUTER_RADIUS K
    \<and> ((ring_radius K t - RING_INNER_RADIUS K) / (RING_OUTER_RADIUS K - RING_INNER_RADIUS K))\<^sup>2 = t
    \<and> t \<le> area_fraction K (ring_radius K t)
    \<and> (area_fraction K (ring_radius K t) = t \<longleftrightarrow> RING_INNER_RADIUS K = 0 \<or> t = 0)
    \<and> (0 < RING_INNER_RADIUS K \<and> 0 < t \<longrightarrow> t < area_fraction K (ring_radius K t))
    \<and> (\<forall>s. 0 \<le> s \<and> s < t \<longrightarrow> ring_radius K s < ring_radius K t)"
proof -
  define a where "a = RING_INNER_RADIUS K"
  define b where "b = RING_OUTER_RADIUS K"
  define u where "u = sqrt t"
  have ab: "0 \<le> a" "a < b" using assms by (simp_all add: a_def b_def)
  have u0: "0 \<le> u" using assms(3) by (simp add: u_def)
  have u1: "u < 1" using assms(3,4) by (simp add: u_def)
  have uu: "u * u = t" using assms(3) by (simp add: u_def)
  have ut: "t \<le> u" using u0 u1 uu mult_left_le[of u u] by simp
  have r: "ring_radius K t = u * (b - a) + a" by (simp add: ring_radius_def a_def b_def u_def)
  have lo: "a \<le> ring_radius K t" using ab u0 by (simp add: r)
  have "u * (b - a) < 1 * (b - a)" using ab u1 by (intro mult_strict_right_mono) simp_all
  then have hi: "ring_radius K t < b" by (simp add: r)
  have sq: "((ring_radius K t - a) / (b - a))\<^sup>2 = t"
    using ab by (simp add: r uu power2_eq_square)
  have af: "area_fraction K (ring_radius K t) = (t * (b - a) + 2 * a * u) / (b + a)"
    using area_fraction_ring[OF assms(1,2,3)] by (simp only: a_def b_def u_def)
  have pos: "0 < b + a" using ab by simp
  have diff: "area_fraction K (ring_radius K t) - t = 2 * a * (u - t) / (b + a)"
    using pos by (simp add: af field_simps)
  have ge: "t \<le> area_fraction K (ring_radius K t)"
  proof -
    have "0 \<le> 2 * a * (u - t) / (b + a)" using ab ut pos by simp
    then show ?thesis using diff by linarith
  qed
  have eq: "area_fraction K (ring_radius K t) = t \<longleftrightarrow> a = 0 \<or> t = 0"
  proof -
    have "area_fraction K (ring_radius K t) = t \<longleftrightarrow> 2 * a * (u - t) / (b + a) = 0"
      using diff by linarith
    also have "\<dots> \<longleftrightarrow> a = 0 \<or> u = t" using pos by auto
    also have "u = t \<longleftrightarrow> t = 0"
    proof
      assume "u = t"
      then have "u * u = u" using uu by simp
      then have "u * (u - 1) = 0" by (simp add: algebra_simps)
      then have "u = 0" using u1 by auto
      then show "t = 0" using uu by simp
    next
      assume "t = 0"
      then show "u = t" by (simp add: u_def)
    qed
    finally show ?thesis .
  qed
  have mono: "\<forall>s. 0 \<le> s \<and> s < t \<longrightarrow> ring_radius K s < ring_radius K t"
    using ring_radius_mono[OF assms(2)] by blast
  have gt: "0 < a \<and> 0 < t \<longrightarrow> t < area_fraction K (ring_radius K t)"
    using ge eq by (cases "area_fraction K (ring_radius K t) = t") auto
  have hi': "ring_radius K t \<le> b" using hi by simp
  show ?thesis using lo hi' sq ge eq gt mono by (simp only: a_def b_def)
qed

theorem ring_radius_distribution_witness:
  "ring_radius \<lparr>PARTICLE_COUNT = 1, SATURN_RADIUS = 1, RING_INNER_RADIUS = 1,
       RING_OUTER_RADIUS = 3, EXPANSION_SCALE = 1\<rparr> (1 / 4) \<le> 3
   \<and> 1 / 4 < area_fraction \<lparr>PARTICLE_COUNT = 1, SATURN_RADIUS = 1, RING_INNER_RADIUS = 1,
       RING_OUTER_RADIUS = 3, EXPANSION_SCALE = 1\<rparr>
     (ring_radius \<lparr>PARTICLE_COUNT = 1, SATURN_RADIUS = 1, RING_INNER_RADIUS = 1,
       RING_OUTER_RADIUS = 3, EXPANSION_SCALE = 1\<rparr> (1 / 4))"
  using ring_radius_distribution[of "\<lparr>PARTICLE_COUNT = 1, SATURN_RADIUS = 1, RING_INNER_RADIUS = 1,
       RING_OUTER_RADIUS = 3, EXPANSION_SCALE = 1\<rparr>" "1 / 4"]
  by simp

text \<open>
  C2 as stated fails for a positive inner radius: with the inner radius 1 and the outer
  radius 3, the random number 1/4 gives the radius 2. A quarter of the particles lie within
  this radius, and 3/8 of the area of the annulus.
\<close>

theorem ring_radius_counterexample:
  "area_fraction \<lparr>PARTICLE_COUNT = 1, SATURN_RADIUS = 1, RING_INNER_RADIUS = 1,
       RING_OUTER_RADIUS = 3, EXPANSION_SCALE = 1\<rparr>
     (ring_radius \<lparr>PARTICLE_COUNT = 1, SATURN_RADIUS = 1, RING_INNER_RADIUS = 1,
       RING_OUTER_RADIUS = 3, EXPANSION_SCALE = 1\<rparr> (1 / 4)) = 3 / 8
   \<and> (3 / 8 :: real) \<noteq> 1 / 4"
proof -
  have "sqrt (1 / 4) = 1 / 2" by (simp add: real_sqrt_divide)
  then show ?thesis by (simp add: area_fraction_def ring_radius_def power2_eq_square)
qed

section \<open>The rounding of a binary64 product\<close>

lemma round53_cases:
  fixes p :: nat
  defines "s \<equiv> floorlog 2 p - 53"
  shows "round53 p = (p div 2 ^ s) * 2 ^ s \<and> 2 * (p mod 2 ^ s) \<le> 2 ^ s
       \<or> round53 p = (p div 2 ^ s + 1) * 2 ^ s \<and> 2 ^ s \<le> 2 * (p mod 2 ^ s)"
  unfolding round53_def s_def Let_def by (auto simp: not_less)

lemma round53_small: "floorlog 2 p \<le> 53 \<Longrightarrow> round53 p = p"
  by (simp add: round53_def)

lemma round53_scale:
  fixes p :: nat
  assumes "53 < floorlog 2 p"
  shows "2 ^ (floorlog 2 p - 53) * 2 ^ 52 \<le> p"
proof -
  have p: "0 < p" using assms by (cases "p = 0") (simp_all add: floorlog_def)
  have ex: "(floorlog 2 p - 53) + 52 = floorlog 2 p - 1" using assms by linarith
  have "(2::nat) ^ (floorlog 2 p - 53) * 2 ^ 52 = 2 ^ ((floorlog 2 p - 53) + 52)"
    by (simp only: power_add)
  also have "\<dots> = 2 ^ (floorlog 2 p - 1)" by (simp only: ex)
  also have "\<dots> \<le> p" using floorlog_bounds[of p 2] p by simp
  finally show ?thesis .
qed

lemma round53_near:
  fixes p :: nat
  assumes "53 < floorlog 2 p"
  shows "\<exists>e. e * 2 ^ 52 \<le> p \<and> 2 * round53 p \<le> 2 * p + e \<and> 2 * p \<le> 2 * round53 p + e"
proof -
  define s where "s = floorlog 2 p - 53"
  define q where "q = p div 2 ^ s"
  define r where "r = p mod 2 ^ s"
  define e :: nat where "e = 2 ^ s"
  have pq: "p = q * e + r" unfolding q_def r_def e_def by (rule div_mult_mod_eq[symmetric])
  have sc: "e * 2 ^ 52 \<le> p" using round53_scale[OF assms] by (simp only: s_def e_def)
  have rl: "r < e" by (simp add: r_def e_def)
  from round53_cases[of p]
  have c: "round53 p = q * e \<and> 2 * r \<le> e \<or> round53 p = (q + 1) * e \<and> e \<le> 2 * r"
    by (simp only: s_def q_def r_def e_def)
  have "2 * round53 p \<le> 2 * p + e" using c pq rl by (auto simp: algebra_simps)
  moreover have "2 * p \<le> 2 * round53 p + e" using c pq rl by (auto simp: algebra_simps)
  ultimately show ?thesis using sc by blast
qed

lemma round53_le: "round53 p * 2 ^ 53 \<le> p * (2 ^ 53 + 1)"
proof (cases "floorlog 2 p \<le> 53")
  case True
  then show ?thesis by (simp add: round53_small)
next
  case False
  then obtain e where e: "e * 2 ^ 52 \<le> p" "2 * round53 p \<le> 2 * p + e"
    using round53_near[of p] by auto
  define B :: nat where "B = 2 ^ 52"
  have B: "(2::nat) ^ 53 = 2 * B" by (simp add: B_def)
  have "B * (2 * round53 p) \<le> B * (2 * p + e)" using e(2) by (rule mult_le_mono2)
  also have "\<dots> = p * (2 * B) + e * B" by (simp add: algebra_simps)
  also have "\<dots> \<le> p * (2 * B) + p" using e(1) by (simp add: B_def)
  finally show ?thesis unfolding B by (simp add: algebra_simps)
qed

lemma round53_ge: "p * (2 ^ 53 - 1) \<le> round53 p * 2 ^ 53"
proof (cases "floorlog 2 p \<le> 53")
  case True
  then show ?thesis by (simp add: round53_small)
next
  case False
  then obtain e where e: "e * 2 ^ 52 \<le> p" "2 * p \<le> 2 * round53 p + e"
    using round53_near[of p] by auto
  define B :: nat where "B = 2 ^ 52"
  have B: "(2::nat) ^ 53 = 2 * B" by (simp add: B_def)
  have B1: "1 \<le> B" by (simp add: B_def)
  have "B * (2 * p) \<le> B * (2 * round53 p + e)" using e(2) by (rule mult_le_mono2)
  also have "\<dots> = round53 p * (2 * B) + e * B" by (simp add: algebra_simps)
  also have "\<dots> \<le> round53 p * (2 * B) + p" using e(1) by (simp add: B_def)
  finally have "p * (2 * B) \<le> round53 p * (2 * B) + p" by (simp add: algebra_simps)
  moreover have "p * (2 * B - 1) + p = p * (2 * B)"
    using B1 by (simp add: algebra_simps diff_mult_distrib2)
  ultimately have "p * (2 * B - 1) \<le> round53 p * (2 * B)" by linarith
  then show ?thesis unfolding B .
qed

lemma round53_multiple:
  fixes p M :: nat
  assumes "floorlog 2 p \<le> 107" and "M * 2 ^ 54 \<le> p"
  shows "M * 2 ^ 54 \<le> round53 p"
proof -
  define s where "s = floorlog 2 p - 53"
  have s: "s \<le> 54" using assms(1) by (simp add: s_def)
  have "(2::nat) ^ (54 - s) * 2 ^ s = 2 ^ (54 - s + s)" by (simp only: power_add)
  also have "\<dots> = 2 ^ 54" using s by simp
  finally have M: "(M * 2 ^ (54 - s)) * 2 ^ s = M * 2 ^ 54" by (simp only: mult.assoc)
  then have "(M * 2 ^ (54 - s)) * 2 ^ s \<le> p" using assms(2) by (simp only:)
  then have "M * 2 ^ (54 - s) \<le> p div 2 ^ s"
    by (simp only: less_eq_div_iff_mult_less_eq zero_less_power zero_less_numeral)
  then have "(M * 2 ^ (54 - s)) * 2 ^ s \<le> (p div 2 ^ s) * 2 ^ s"
    by (rule mult_le_mono1)
  moreover have "(p div 2 ^ s) * 2 ^ s \<le> round53 p"
    using round53_cases[of p] by (auto simp: s_def)
  ultimately show ?thesis by (simp only: M)
qed

lemma floorlog_product:
  fixes N m :: nat
  assumes "N < 2 ^ 51" "m < 2 ^ 53"
  shows "floorlog 2 (N * m) \<le> 107"
proof -
  have "N * m \<le> 2 ^ 51 * m" using assms(1) by (intro mult_le_mono1) simp
  also have "\<dots> < 2 ^ 51 * 2 ^ 53" using assms(2) by (intro mult_strict_left_mono) simp_all
  also have "\<dots> = (2::nat) ^ 104" by (simp only: power_add [symmetric]) simp
  finally have "N * m < 2 ^ 107"
    using power_strict_increasing[of 104 107 "2::nat"] by linarith
  then show ?thesis by (intro floorlog_leI) simp_all
qed

lemma round53_c04:
  fixes N :: nat
  assumes "N < 2 ^ 51"
  shows "round53 (N * c04) div 2 ^ 54 = (2 * N) div 5"
proof -
  define K where "K = (2 * N) div 5"
  define r where "r = round53 (N * c04)"
  have K: "5 * K \<le> 2 * N" "2 * N < 5 * K + 5" unfolding K_def by presburger+
  have N: "N < 2251799813685248" using assms by simp
  have fl: "floorlog 2 (N * c04) \<le> 107"
    using assms by (intro floorlog_product) (simp_all add: c04_def)
  have "K * 18014398509481984 \<le> N * 7205759403792794" using K by linarith
  then have "K * 2 ^ 54 \<le> N * c04" by (simp add: c04_def)
  from round53_multiple[OF fl this] have lo: "K * 2 ^ 54 \<le> r" by (simp only: r_def)
  have "r * 2 ^ 53 \<le> (N * c04) * (2 ^ 53 + 1)" unfolding r_def by (rule round53_le)
  then have "r * 9007199254740992 \<le> N * 64903710731685356165270309804442"
    by (simp add: c04_def)
  then have hi: "r < (K + 1) * 2 ^ 54" using K N by simp
  have "r div 2 ^ 54 = K"
    using lo hi by (intro div_nat_eqI) (simp_all add: mult.commute)
  then show ?thesis by (simp only: r_def K_def)
qed

lemma round53_c035:
  fixes N :: nat
  assumes "N < 2 ^ 51"
  shows "round53 (N * c035) div 2 ^ 54 \<le> (7 * N) div 20
       \<and> (7 * N) div 20 \<le> round53 (N * c035) div 2 ^ 54 + 1"
proof -
  define K where "K = (7 * N) div 20"
  define r where "r = round53 (N * c035)"
  have K: "20 * K \<le> 7 * N" "7 * N < 20 * K + 20" unfolding K_def by presburger+
  have N: "N < 2251799813685248" using assms by simp
  have "r * 2 ^ 53 \<le> (N * c035) * (2 ^ 53 + 1)" unfolding r_def by (rule round53_le)
  then have "r * 9007199254740992 \<le> N * 56790746890224679889212080023142"
    by (simp add: c035_def)
  then have "r < (K + 1) * 2 ^ 54" using K N by simp
  then have hi: "r div 2 ^ 54 \<le> K"
    by (simp add: less_mult_imp_div_less)
  have "(N * c035) * (2 ^ 53 - 1) \<le> r * 2 ^ 53" unfolding r_def by (rule round53_ge)
  then have "N * 56790746890224667279133123385754 \<le> r * 9007199254740992"
    by (simp add: c035_def)
  then have "K * 2 ^ 54 \<le> r + 2 ^ 54" using K N by simp
  then have "(K - 1) * 2 ^ 54 \<le> r" by (simp add: diff_mult_distrib)
  then have "K - 1 \<le> r div 2 ^ 54"
    by (simp only: less_eq_div_iff_mult_less_eq zero_less_power zero_less_numeral)
  then have lo: "K \<le> r div 2 ^ 54 + 1" by linarith
  show ?thesis using hi lo by (simp only: r_def K_def)
qed

lemma floor_times_nat: "floor_times m (int N) = int (round53 (N * m) div 2 ^ 54)"
proof (cases "N = 0")
  case True
  then show ?thesis by (simp add: floor_times_def round53_def)
next
  case False
  then have "sgn (int N) = 1" by simp
  then show ?thesis by (simp add: floor_times_def zdiv_int)
qed

lemma floorlog_numeral: "floorlog 2 (numeral n) = floorlog 2 (numeral n div 2) + 1"
  by (subst compute_floorlog) simp

lemma floorlog_base: "floorlog 2 (Suc 0) = 1" "floorlog 2 1 = 1" "floorlog 2 0 = 0"
  by (simp_all add: floorlog_def)

section \<open>The loops of the generation\<close>

lemma colour_at_update_same:
  "3 * k + 2 < length cs \<Longrightarrow>
   colour_at (cs[3 * k := fst c, 3 * k + 1 := fst (snd c), 3 * k + 2 := snd (snd c)]) k = c"
  by (simp add: colour_at_def nth_list_update)

lemma colour_at_update_other:
  "i \<noteq> k \<Longrightarrow>
   colour_at (cs[3 * k := a, 3 * k + 1 := b, 3 * k + 2 := c]) i = colour_at cs i"
  by (simp add: colour_at_def nth_list_update)

lemma fold_upt_Suc: "fold f [0..<Suc m] b = f m (fold f [0..<m] b)"
  by simp

lemma sphere_step_fields:
  "idx (sphere_step K Color rnd sc i b) = idx b + 3"
  "draws (sphere_step K Color rnd sc i b) = draws b + 4"
  "length (pos (sphere_step K Color rnd sc i b)) = length (pos b)"
  "length (randPos (sphere_step K Color rnd sc i b)) = length (randPos b)"
  "length (cols (sphere_step K Color rnd sc i b)) = length (cols b)"
  "length (siz (sphere_step K Color rnd sc i b)) = length (siz b)"
  by (simp_all add: sphere_step_def Let_def)

lemma ring_step_fields:
  "idx (ring_step K Color rnd sc i b) = idx b + 3"
  "draws (ring_step K Color rnd sc i b) = draws b + 8"
  "length (pos (ring_step K Color rnd sc i b)) = length (pos b)"
  "length (randPos (ring_step K Color rnd sc i b)) = length (randPos b)"
  "length (cols (ring_step K Color rnd sc i b)) = length (cols b)"
  "length (siz (ring_step K Color rnd sc i b)) = length (siz b)"
  by (simp_all add: ring_step_def Let_def)

lemma sphere_step_cols:
  "cols (sphere_step K Color rnd sc i b)
     = (cols b)[idx b := fst (sphere_colour Color i),
                idx b + 1 := fst (snd (sphere_colour Color i)),
                idx b + 2 := snd (snd (sphere_colour Color i))]"
  by (simp add: sphere_step_def Let_def)

lemma ring_step_cols:
  "\<exists>c \<in> {Color ''#A89F91'', Color ''#D3C1A5''}. cols (ring_step K Color rnd sc i b)
     = (cols b)[idx b := fst c, idx b + 1 := fst (snd c), idx b + 2 := snd (snd c)]"
  by (simp add: ring_step_def Let_def)

lemma sphere_fold_fields:
  "idx (fold (sphere_step K Color rnd sc) [0..<m] b) = idx b + 3 * m
   \<and> draws (fold (sphere_step K Color rnd sc) [0..<m] b) = draws b + 4 * m
   \<and> length (pos (fold (sphere_step K Color rnd sc) [0..<m] b)) = length (pos b)
   \<and> length (randPos (fold (sphere_step K Color rnd sc) [0..<m] b)) = length (randPos b)
   \<and> length (cols (fold (sphere_step K Color rnd sc) [0..<m] b)) = length (cols b)
   \<and> length (siz (fold (sphere_step K Color rnd sc) [0..<m] b)) = length (siz b)"
  by (induction m) (simp_all add: sphere_step_fields)

lemma ring_fold_fields:
  "idx (fold (ring_step K Color rnd sc) [0..<m] b) = idx b + 3 * m
   \<and> draws (fold (ring_step K Color rnd sc) [0..<m] b) = draws b + 8 * m
   \<and> length (pos (fold (ring_step K Color rnd sc) [0..<m] b)) = length (pos b)
   \<and> length (randPos (fold (ring_step K Color rnd sc) [0..<m] b)) = length (randPos b)
   \<and> length (cols (fold (ring_step K Color rnd sc) [0..<m] b)) = length (cols b)
   \<and> length (siz (fold (ring_step K Color rnd sc) [0..<m] b)) = length (siz b)"
  by (induction m) (simp_all add: ring_step_fields)

lemma sphere_fold_cols:
  assumes "idx b = 0" and "3 * m \<le> length (cols b)" and "i < m"
  shows "colour_at (cols (fold (sphere_step K Color rnd sc) [0..<m] b)) i = sphere_colour Color i"
  using assms(2,3)
proof (induction m)
  case 0
  then show ?case by simp
next
  case (Suc m)
  let ?b = "fold (sphere_step K Color rnd sc) [0..<m] b"
  have ix: "idx ?b = 3 * m" using sphere_fold_fields[of K Color rnd sc m b] assms(1) by simp
  have ln: "length (cols ?b) = length (cols b)"
    using sphere_fold_fields[of K Color rnd sc m b] by simp
  have st: "cols (fold (sphere_step K Color rnd sc) [0..<Suc m] b)
      = (cols ?b)[3 * m := fst (sphere_colour Color m),
                  3 * m + 1 := fst (snd (sphere_colour Color m)),
                  3 * m + 2 := snd (snd (sphere_colour Color m))]"
    by (simp add: sphere_step_cols ix)
  show ?case
  proof (cases "i = m")
    case True
    have "3 * m + 2 < length (cols ?b)" using Suc.prems(1) ln by simp
    then show ?thesis unfolding st True by (rule colour_at_update_same)
  next
    case False
    then have "i < m" using Suc.prems(2) by simp
    moreover have "3 * m \<le> length (cols b)" using Suc.prems(1) by simp
    ultimately have "colour_at (cols ?b) i = sphere_colour Color i" using Suc.IH by simp
    then show ?thesis unfolding st by (simp only: colour_at_update_other[OF False])
  qed
qed

lemma ring_fold_cols:
  assumes "idx b = 3 * sc" and "3 * (sc + m) \<le> length (cols b)"
  shows "(\<forall>i<sc. colour_at (cols (fold (ring_step K Color rnd sc) [0..<m] b)) i = colour_at (cols b) i)
    \<and> (\<forall>i<m. colour_at (cols (fold (ring_step K Color rnd sc) [0..<m] b)) (sc + i)
            \<in> {Color ''#A89F91'', Color ''#D3C1A5''})"
  using assms(2)
proof (induction m)
  case 0
  then show ?case by simp
next
  case (Suc m)
  let ?b = "fold (ring_step K Color rnd sc) [0..<m] b"
  have ix: "idx ?b = 3 * (sc + m)" using ring_fold_fields[of K Color rnd sc m b] assms(1) by simp
  have ln: "length (cols ?b) = length (cols b)"
    using ring_fold_fields[of K Color rnd sc m b] by simp
  have "\<exists>c \<in> {Color ''#A89F91'', Color ''#D3C1A5''}. cols (ring_step K Color rnd sc m ?b)
     = (cols ?b)[idx ?b := fst c, idx ?b + 1 := fst (snd c), idx ?b + 2 := snd (snd c)]"
    by (rule ring_step_cols)
  then obtain c where c: "c \<in> {Color ''#A89F91'', Color ''#D3C1A5''}"
    and st0: "cols (ring_step K Color rnd sc m ?b)
     = (cols ?b)[idx ?b := fst c, idx ?b + 1 := fst (snd c), idx ?b + 2 := snd (snd c)]"
    by blast
  have st: "cols (fold (ring_step K Color rnd sc) [0..<Suc m] b)
      = (cols ?b)[3 * (sc + m) := fst c, 3 * (sc + m) + 1 := fst (snd c),
                  3 * (sc + m) + 2 := snd (snd c)]"
    using st0 by (simp add: ix)
  have ih: "(\<forall>i<sc. colour_at (cols ?b) i = colour_at (cols b) i)
    \<and> (\<forall>i<m. colour_at (cols ?b) (sc + i) \<in> {Color ''#A89F91'', Color ''#D3C1A5''})"
    using Suc by simp
  have new: "3 * (sc + m) + 2 < length (cols ?b)" using Suc.prems ln by simp
  have a: "\<forall>i<sc. colour_at (cols (fold (ring_step K Color rnd sc) [0..<Suc m] b)) i
      = colour_at (cols b) i"
  proof (intro allI impI)
    fix i assume "i < sc"
    then have ne: "i \<noteq> sc + m" by simp
    have "colour_at (cols ?b) i = colour_at (cols b) i" using ih \<open>i < sc\<close> by blast
    then show "colour_at (cols (fold (ring_step K Color rnd sc) [0..<Suc m] b)) i
      = colour_at (cols b) i"
      unfolding st by (simp only: colour_at_update_other[OF ne])
  qed
  have b: "\<forall>i<Suc m. colour_at (cols (fold (ring_step K Color rnd sc) [0..<Suc m] b)) (sc + i)
      \<in> {Color ''#A89F91'', Color ''#D3C1A5''}"
  proof (intro allI impI)
    fix i assume i: "i < Suc m"
    show "colour_at (cols (fold (ring_step K Color rnd sc) [0..<Suc m] b)) (sc + i)
      \<in> {Color ''#A89F91'', Color ''#D3C1A5''}"
    proof (cases "i = m")
      case True
      then show ?thesis unfolding st True using c by (simp only: colour_at_update_same[OF new])
    next
      case False
      then have "i < m" using i by simp
      then have "colour_at (cols ?b) (sc + i) \<in> {Color ''#A89F91'', Color ''#D3C1A5''}"
        using ih by blast
      moreover have ne: "sc + i \<noteq> sc + m" using False by simp
      ultimately show ?thesis unfolding st by (simp only: colour_at_update_other[OF ne])
    qed
  qed
  show ?case using a b by blast
qed

section \<open>The body count\<close>

lemma floor_times_c04:
  assumes "0 \<le> N" "N < 2 ^ 51"
  shows "floor_times c04 N = (2 * N) div 5"
proof -
  define n where "n = nat N"
  have N: "N = int n" using assms(1) by (simp add: n_def)
  have n: "n < 2 ^ 51" using assms by (simp add: n_def nat_less_iff)
  have "floor_times c04 (int n) = int ((2 * n) div 5)"
    unfolding floor_times_nat round53_c04[OF n] ..
  then show ?thesis unfolding N by (simp add: zdiv_int)
qed

lemma floor_times_c035:
  assumes "0 \<le> N" "N < 2 ^ 51"
  shows "0 \<le> floor_times c035 N \<and> floor_times c035 N \<le> (7 * N) div 20
       \<and> (7 * N) div 20 \<le> floor_times c035 N + 1"
proof -
  define n where "n = nat N"
  have N: "N = int n" using assms(1) by (simp add: n_def)
  have n: "n < 2 ^ 51" using assms by (simp add: n_def nat_less_iff)
  define r where "r = round53 (n * c035) div 2 ^ 54"
  have f: "floor_times c035 (int n) = int r" unfolding floor_times_nat r_def ..
  have "r \<le> (7 * n) div 20 \<and> (7 * n) div 20 \<le> r + 1"
    unfolding r_def by (rule round53_c035[OF n])
  then have "int r \<le> int ((7 * n) div 20) \<and> int ((7 * n) div 20) \<le> int r + 1"
    by linarith
  then show ?thesis unfolding N f by (simp add: zdiv_int)
qed

lemma floor_fraction: "\<lfloor>0.35 * real_of_int N\<rfloor> = (7 * N) div 20" "\<lfloor>0.4 * real_of_int N\<rfloor> = (2 * N) div 5"
proof -
  have "0.35 * real_of_int N = real_of_int (7 * N) / real_of_int 20" by simp
  then show "\<lfloor>0.35 * real_of_int N\<rfloor> = (7 * N) div 20"
    by (simp only: floor_divide_of_int_eq)
  have "0.4 * real_of_int N = real_of_int (2 * N) / real_of_int 5" by simp
  then show "\<lfloor>0.4 * real_of_int N\<rfloor> = (2 * N) div 5"
    by (simp only: floor_divide_of_int_eq)
qed

lemma body_count:
  assumes "0 \<le> sc" "nat sc \<le> n"
  shows "length (filter (\<lambda>i. group_of sc i = Body) [0..<n]) = nat sc
       \<and> length (filter (\<lambda>i. group_of sc i = Ring) [0..<n]) = n - nat sc"
proof -
  have b: "filter (\<lambda>i. group_of sc i = Body) [0..<n] = [0..<nat sc]"
  proof -
    have "[0..<n] = [0..<nat sc] @ [nat sc..<n]"
      using assms(2) by (metis le_add_diff_inverse upt_add_eq_append zero_le)
    moreover have "filter (\<lambda>i. group_of sc i = Body) [0..<nat sc] = [0..<nat sc]"
      using assms(1) by (auto simp: group_of_def filter_id_conv)
    moreover have "filter (\<lambda>i. group_of sc i = Body) [nat sc..<n] = []"
      using assms(1) by (auto simp: group_of_def filter_empty_conv)
    ultimately show ?thesis by simp
  qed
  have "length (filter (\<lambda>i. group_of sc i = Body) [0..<n])
      + length (filter (\<lambda>i. \<not> group_of sc i = Body) [0..<n]) = n"
    using sum_length_filter_compl[of "\<lambda>i. group_of sc i = Body" "[0..<n]"] by simp
  moreover have "(\<lambda>i. \<not> group_of sc i = Body) = (\<lambda>i. group_of sc i = Ring)"
    by (auto simp: group_of_def)
  ultimately show ?thesis using b by simp
qed

lemma shader_particles_ok:
  assumes "0 \<le> PARTICLE_COUNT K"
  shows "\<exists>d. shader_particles K Color rnd = Inr d
    \<and> length (sizes d) = nat (PARTICLE_COUNT K)
    \<and> length (positions d) = nat (PARTICLE_COUNT K) * 3
    \<and> length (randomPositions d) = nat (PARTICLE_COUNT K) * 3
    \<and> length (colors d) = nat (PARTICLE_COUNT K) * 3"
  using assms sphere_fold_fields ring_fold_fields
  by (simp add: shader_particles_def Let_def)

lemma shader_particles_colours:
  assumes "0 \<le> PARTICLE_COUNT K"
    and "0 \<le> floor_times c035 (PARTICLE_COUNT K)"
    and "floor_times c035 (PARTICLE_COUNT K) \<le> PARTICLE_COUNT K"
    and "shader_particles K Color rnd = Inr d"
    and "i < nat (PARTICLE_COUNT K)"
  shows "colour_at (colors d) i \<in>
     (if group_of (floor_times c035 (PARTICLE_COUNT K)) i = Body
      then {Color ''#EAD6B8'', Color ''#C5A984''}
      else {Color ''#A89F91'', Color ''#D3C1A5''})"
proof -
  define n where "n = nat (PARTICLE_COUNT K)"
  define sc where "sc = nat (floor_times c035 (PARTICLE_COUNT K))"
  define rc where "rc = nat (PARTICLE_COUNT K - floor_times c035 (PARTICLE_COUNT K))"
  define b0 where "b0 = \<lparr>pos = replicate (n * 3) 0, randPos = replicate (n * 3) 0,
                  cols = replicate (n * 3) (0::real), siz = replicate n 0, idx = 0, draws = 0\<rparr>"
  define b1 where "b1 = fold (sphere_step K Color rnd sc) [0..<sc] b0"
  define b2 where "b2 = fold (ring_step K Color rnd sc) [0..<rc] b1"
  have n: "sc + rc = n" using assms(1,2,3) by (simp add: sc_def rc_def n_def)
  have d: "colors d = cols b2"
    using assms(1,4) by (auto simp: shader_particles_def Let_def b2_def b1_def b0_def n_def sc_def rc_def)
  have l0: "length (cols b0) = 3 * n" "idx b0 = 0" by (simp_all add: b0_def)
  have f1: "idx b1 = 3 * sc" "length (cols b1) = 3 * n"
    using sphere_fold_fields[of K Color rnd sc sc b0] l0 by (simp_all add: b1_def)
  have c1: "\<forall>j<sc. colour_at (cols b1) j = sphere_colour Color j"
    unfolding b1_def using l0 n by (intro allI impI sphere_fold_cols) simp_all
  have c2: "(\<forall>j<sc. colour_at (cols b2) j = colour_at (cols b1) j)
    \<and> (\<forall>j<rc. colour_at (cols b2) (sc + j) \<in> {Color ''#A89F91'', Color ''#D3C1A5''})"
    unfolding b2_def using f1 n by (intro ring_fold_cols) simp_all
  show ?thesis
  proof (cases "i < sc")
    case True
    then have "group_of (floor_times c035 (PARTICLE_COUNT K)) i = Body"
      using assms(2) by (simp add: group_of_def sc_def)
    moreover have "colour_at (cols b2) i = sphere_colour Color i" using c1 c2 True by simp
    ultimately show ?thesis by (simp add: d sphere_colour_def)
  next
    case False
    then have g: "group_of (floor_times c035 (PARTICLE_COUNT K)) i = Ring"
      using assms(2) by (simp add: group_of_def sc_def)
    have "i - sc < rc" using False assms(5) n by (simp add: n_def)
    then have "colour_at (cols b2) (sc + (i - sc)) \<in> {Color ''#A89F91'', Color ''#D3C1A5''}"
      using c2 by blast
    then show ?thesis using False g by (simp add: d)
  qed
qed

section \<open>The particle list of the earlier variant\<close>

lemma sphere_push:
  "fold (\<lambda>i (temp, k). (temp @ [sphere_particle K rnd sc i k], k + 4)) [0..<m] (t0, k0)
     = (t0 @ map (\<lambda>i. sphere_particle K rnd sc i (k0 + 4 * i)) [0..<m], k0 + 4 * m)"
  by (induction m) simp_all

lemma ring_push:
  "fold (\<lambda>i (temp, k). (temp @ [ring_particle K rnd k], k + 8)) [0..<m] (t0, k0)
     = (t0 @ map (\<lambda>i. ring_particle K rnd (k0 + 8 * i)) [0..<m], k0 + 8 * m)"
  by (induction m) simp_all

lemma cpu_particles_eq:
  "cpu_particles K rnd =
     map (\<lambda>i. sphere_particle K rnd (nat (floor_times c04 (PARTICLE_COUNT K))) i (4 * i))
       [0..<nat (floor_times c04 (PARTICLE_COUNT K))]
     @ map (\<lambda>i. ring_particle K rnd (4 * nat (floor_times c04 (PARTICLE_COUNT K)) + 8 * i))
       [0..<nat (PARTICLE_COUNT K - floor_times c04 (PARTICLE_COUNT K))]"
  by (simp add: cpu_particles_def Let_def sphere_push ring_push)

lemma palettes:
  "p_color (sphere_particle K rnd sc i k) \<in> body_palette"
  "p_color (sphere_particle K rnd sc i k) \<notin> ring_palette"
  "p_color (ring_particle K rnd k) \<in> ring_palette"
  "p_color (ring_particle K rnd k) \<notin> body_palette"
  by (simp_all add: sphere_particle_def ring_particle_def Let_def body_palette_def ring_palette_def)

lemma cpu_particles_groups:
  "length (cpu_particles K rnd)
     = nat (floor_times c04 (PARTICLE_COUNT K))
       + nat (PARTICLE_COUNT K - floor_times c04 (PARTICLE_COUNT K))
   \<and> length (filter (\<lambda>p. p_color p \<in> body_palette) (cpu_particles K rnd))
     = nat (floor_times c04 (PARTICLE_COUNT K))
   \<and> length (filter (\<lambda>p. p_color p \<in> ring_palette) (cpu_particles K rnd))
     = nat (PARTICLE_COUNT K - floor_times c04 (PARTICLE_COUNT K))
   \<and> (\<forall>p\<in>set (cpu_particles K rnd). (p_color p \<in> body_palette) \<noteq> (p_color p \<in> ring_palette))"
  unfolding cpu_particles_eq
  by (auto simp: filter_map comp_def palettes)

lemma cpu_scene_result:
  "cpu_scene K Color rnd =
     (if PARTICLE_COUNT K < 0 then Inl RangeError
      else Inr \<lparr>cpu_points = cpu_particles K rnd,
               cpu_positions = replicate (nat (PARTICLE_COUNT K) * 3) 0,
               cpu_colors = fst (prefill Color (cpu_particles K rnd)
                  (replicate (nat (PARTICLE_COUNT K) * 3) 0, replicate (nat (PARTICLE_COUNT K)) 0)),
               cpu_sizes = snd (prefill Color (cpu_particles K rnd)
                  (replicate (nat (PARTICLE_COUNT K) * 3) 0, replicate (nat (PARTICLE_COUNT K)) 0))\<rparr>)"
  by (simp add: cpu_scene_def Let_def)

lemma cpu_frame_points:
  assumes "cpu_frame cur n isExp time d = Inr d'"
  shows "cpu_points d' = cpu_points d \<and> cpu_colors d' = cpu_colors d \<and> cpu_sizes d' = cpu_sizes d"
  using assms by (auto simp: cpu_frame_def split: if_splits sum.splits)

lemma lerp_step_length: "length (lerp_step isExp time i p arr) = length arr"
  by (simp add: lerp_step_def Let_def split: prod.splits)

lemma cpu_frame_loop_ok:
  assumes "m \<le> length ps"
  shows "\<exists>arr'. fold (\<lambda>i acc.
                case acc of
                  Inl e \<Rightarrow> Inl e
                | Inr arr \<Rightarrow>
                    (case elem_at ps i of
                       None \<Rightarrow> Inl TypeError
                     | Some p \<Rightarrow> Inr (lerp_step isExp time i p arr)))
               [0..<m] (Inr arr) = Inr arr' \<and> length arr' = length arr"
  using assms
proof (induction m)
  case 0
  then show ?case by simp
next
  case (Suc m)
  then obtain a where a: "fold (\<lambda>i acc.
                case acc of
                  Inl e \<Rightarrow> Inl e
                | Inr arr \<Rightarrow>
                    (case elem_at ps i of
                       None \<Rightarrow> Inl TypeError
                     | Some p \<Rightarrow> Inr (lerp_step isExp time i p arr)))
               [0..<m] (Inr arr) = Inr a" "length a = length arr"
    by auto
  have "elem_at ps m = Some (ps ! m)" using Suc.prems by (simp add: elem_at_def)
  then show ?case using a by (simp add: lerp_step_length)
qed

section \<open>The particle field\<close>

text \<open>
  C1, as the code has it. For a particle count \<open>N\<close> from 1 up to \<open>2 ^ 51\<close> (beyond every
  array that can be allocated), both variants produce \<open>N\<close> particles in two groups.

  In \<^verbatim>\<open>SaturnScene.tsx\<close> the arrays hold \<open>N\<close> slots; the slots below
  \<^verbatim>\<open>sphereCount = Math.floor(N * 0.35)\<close> form the body and carry a colour of the body
  palette, the other slots form the ring and carry a colour of the ring palette. The body
  count is \<open>\<lfloor>0.35 N\<rfloor>\<close> or, where the binary64 product rounds below an integer,
  \<open>\<lfloor>0.35 N\<rfloor> - 1\<close>.

  In the earlier variant the list holds \<open>N\<close> particles, \<open>\<lfloor>0.4 N\<rfloor>\<close> of them with a colour of
  the body palette and the others with a colour of the ring palette, and no particle has
  both. A frame succeeds on these particles and leaves the particles (hence their groups)
  and the colours as they are; the frame function of \<^verbatim>\<open>SaturnScene.tsx\<close>, \<open>useFrame\<close>, does
  not take the particle arrays at all.
\<close>

theorem particle_groups:
  assumes "1 \<le> PARTICLE_COUNT K" and "PARTICLE_COUNT K < 2 ^ 51"
  shows "(\<exists>d. shader_particles K Color rnd = Inr d
        \<and> length (sizes d) = nat (PARTICLE_COUNT K)
        \<and> length (positions d) = nat (PARTICLE_COUNT K) * 3
        \<and> length (randomPositions d) = nat (PARTICLE_COUNT K) * 3
        \<and> length (colors d) = nat (PARTICLE_COUNT K) * 3
        \<and> (\<forall>i<nat (PARTICLE_COUNT K). colour_at (colors d) i \<in>
              (if group_of (floor_times c035 (PARTICLE_COUNT K)) i = Body
               then {Color ''#EAD6B8'', Color ''#C5A984''}
               else {Color ''#A89F91'', Color ''#D3C1A5''})))
    \<and> length (filter (\<lambda>i. group_of (floor_times c035 (PARTICLE_COUNT K)) i = Body)
          [0..<nat (PARTICLE_COUNT K)]) = nat (floor_times c035 (PARTICLE_COUNT K))
    \<and> length (filter (\<lambda>i. group_of (floor_times c035 (PARTICLE_COUNT K)) i = Ring)
          [0..<nat (PARTICLE_COUNT K)])
        = nat (PARTICLE_COUNT K) - nat (floor_times c035 (PARTICLE_COUNT K))
    \<and> \<lfloor>0.35 * real_of_int (PARTICLE_COUNT K)\<rfloor> - 1 \<le> floor_times c035 (PARTICLE_COUNT K)
    \<and> floor_times c035 (PARTICLE_COUNT K) \<le> \<lfloor>0.35 * real_of_int (PARTICLE_COUNT K)\<rfloor>
    \<and> length (cpu_particles K rnd) = nat (PARTICLE_COUNT K)
    \<and> length (filter (\<lambda>p. p_color p \<in> body_palette) (cpu_particles K rnd))
        = nat \<lfloor>0.4 * real_of_int (PARTICLE_COUNT K)\<rfloor>
    \<and> length (filter (\<lambda>p. p_color p \<in> ring_palette) (cpu_particles K rnd))
        = nat (PARTICLE_COUNT K) - nat \<lfloor>0.4 * real_of_int (PARTICLE_COUNT K)\<rfloor>
    \<and> (\<forall>p\<in>set (cpu_particles K rnd).
          (p_color p \<in> body_palette) \<noteq> (p_color p \<in> ring_palette))
    \<and> (\<forall>d. cpu_points d = cpu_particles K rnd \<longrightarrow>
          (\<exists>d'. cpu_frame cur (PARTICLE_COUNT K) isExp time d = Inr d'
              \<and> cpu_points d' = cpu_points d \<and> cpu_colors d' = cpu_colors d))"
proof -
  define N where "N = PARTICLE_COUNT K"
  define a where "a = floor_times c035 N"
  have N: "0 \<le> N" "N < 2 ^ 51" using assms by (simp_all add: N_def)
  have a: "0 \<le> a" "a \<le> (7 * N) div 20" "(7 * N) div 20 \<le> a + 1"
    using floor_times_c035[OF N] by (simp_all add: a_def)
  have aN: "a \<le> N" using a(2) N(1) by linarith
  have b: "floor_times c04 N = (2 * N) div 5" by (rule floor_times_c04[OF N])
  have bN: "0 \<le> (2 * N) div 5" "(2 * N) div 5 \<le> N" using N(1) by linarith+
  obtain d where d: "shader_particles K Color rnd = Inr d"
    "length (sizes d) = nat N" "length (positions d) = nat N * 3"
    "length (randomPositions d) = nat N * 3" "length (colors d) = nat N * 3"
    using shader_particles_ok[of K Color rnd] N(1) unfolding N_def by blast
  have col: "\<forall>i<nat N. colour_at (colors d) i \<in>
              (if group_of a i = Body
               then {Color ''#EAD6B8'', Color ''#C5A984''}
               else {Color ''#A89F91'', Color ''#D3C1A5''})"
    using shader_particles_colours[of K Color rnd d] N(1) a(1) aN d(1)
    unfolding N_def a_def by blast
  have cnt: "length (filter (\<lambda>i. group_of a i = Body) [0..<nat N]) = nat a
       \<and> length (filter (\<lambda>i. group_of a i = Ring) [0..<nat N]) = nat N - nat a"
    using a(1) aN by (intro body_count) simp_all
  have fl: "\<lfloor>0.35 * real_of_int N\<rfloor> - 1 \<le> a" "a \<le> \<lfloor>0.35 * real_of_int N\<rfloor>"
    using a by (simp_all only: floor_fraction)
  have cpu: "length (cpu_particles K rnd) = nat N"
    "length (filter (\<lambda>p. p_color p \<in> body_palette) (cpu_particles K rnd))
        = nat \<lfloor>0.4 * real_of_int N\<rfloor>"
    "length (filter (\<lambda>p. p_color p \<in> ring_palette) (cpu_particles K rnd))
        = nat N - nat \<lfloor>0.4 * real_of_int N\<rfloor>"
    "\<forall>p\<in>set (cpu_particles K rnd).
          (p_color p \<in> body_palette) \<noteq> (p_color p \<in> ring_palette)"
    using cpu_particles_groups[of K rnd] b bN unfolding N_def[symmetric] floor_fraction
    by (simp_all add: nat_diff_distrib)
  have fr: "\<forall>d. cpu_points d = cpu_particles K rnd \<longrightarrow>
          (\<exists>d'. cpu_frame cur N isExp time d = Inr d'
              \<and> cpu_points d' = cpu_points d \<and> cpu_colors d' = cpu_colors d)"
  proof (intro allI impI)
    fix d :: cpuData
    assume p: "cpu_points d = cpu_particles K rnd"
    have "nat N \<le> length (cpu_points d)" using cpu(1) p by simp
    from cpu_frame_loop_ok[OF this, of isExp time "cpu_positions d"]
    have "\<exists>d'. cpu_frame cur N isExp time d = Inr d'"
      by (auto simp: cpu_frame_def)
    then show "\<exists>d'. cpu_frame cur N isExp time d = Inr d'
              \<and> cpu_points d' = cpu_points d \<and> cpu_colors d' = cpu_colors d"
      using cpu_frame_points by blast
  qed
  show ?thesis
    unfolding N_def[symmetric] a_def[symmetric]
    using d col cnt fl cpu fr by blast
qed

theorem particle_groups_witness:
  "length (cpu_particles \<lparr>PARTICLE_COUNT = 180, SATURN_RADIUS = 10, RING_INNER_RADIUS = 14,
       RING_OUTER_RADIUS = 22, EXPANSION_SCALE = 30\<rparr> (\<lambda>k. 0)) = 180
   \<and> length (filter (\<lambda>p. p_color p \<in> body_palette)
        (cpu_particles \<lparr>PARTICLE_COUNT = 180, SATURN_RADIUS = 10, RING_INNER_RADIUS = 14,
           RING_OUTER_RADIUS = 22, EXPANSION_SCALE = 30\<rparr> (\<lambda>k. 0))) = 72
   \<and> 62 \<le> floor_times c035 180 \<and> floor_times c035 180 \<le> 63"
  using particle_groups[of "\<lparr>PARTICLE_COUNT = 180, SATURN_RADIUS = 10, RING_INNER_RADIUS = 14,
       RING_OUTER_RADIUS = 22, EXPANSION_SCALE = 30\<rparr>" "\<lambda>s. (0, 0, 0)" "\<lambda>k. 0"]
  by simp

text \<open>
  C1 as stated fails at \<open>N = 180\<close> in \<^verbatim>\<open>SaturnScene.tsx\<close>: the exact product
  \<open>180 * 6305039478318694 = 1134907106097364920\<close> has 60 bits, its rounding to 53 bits is
  \<open>1134907106097364864\<close>, below \<open>63 * 2 ^ 54 = 1134907106097364992\<close>. So \<^verbatim>\<open>180 * 0.35\<close> is
  \<^verbatim>\<open>62.99999999999999\<close>, and the body has 62 particles, fewer than \<open>\<lfloor>0.35 * 180\<rfloor> = 63\<close>.
\<close>

theorem particle_groups_counterexample:
  "floor_times c035 180 = 62
   \<and> length (filter (\<lambda>i. group_of (floor_times c035 180) i = Body) [0..<180]) = 62
   \<and> \<lfloor>0.35 * real_of_int 180\<rfloor> = 63
   \<and> \<lfloor>0.4 * real_of_int 180\<rfloor> = 72"
proof -
  have f: "floor_times c035 180 = 62"
    by (simp add: floor_times_def round53_def c035_def floorlog_numeral floorlog_base Let_def)
  have "length (filter (\<lambda>i. group_of 62 i = Body) [0..<180]) = nat 62"
    using body_count[of 62 180] by simp
  then show ?thesis unfolding f by simp
qed

section \<open>Invalid parameters\<close>

text \<open>
  C6, as the code has it. Neither variant checks its parameters. A negative particle
  count ends in the \<^verbatim>\<open>RangeError\<close> of the array allocation; every other particle count,
  with any radii whatever, gives a particle field (of \<open>N\<close> slots in \<^verbatim>\<open>SaturnScene.tsx\<close>),
  so valid parameters do not abort.
\<close>

theorem initialization_errors:
  "(PARTICLE_COUNT K < 0 \<longrightarrow>
      shader_particles K Color rnd = Inl RangeError \<and> cpu_scene K Color rnd = Inl RangeError)
   \<and> (0 \<le> PARTICLE_COUNT K \<longrightarrow>
      (\<exists>d. shader_particles K Color rnd = Inr d
          \<and> length (sizes d) = nat (PARTICLE_COUNT K)
          \<and> length (positions d) = nat (PARTICLE_COUNT K) * 3)
      \<and> (\<exists>d. cpu_scene K Color rnd = Inr d \<and> cpu_points d = cpu_particles K rnd))"
proof (intro conjI impI)
  assume "PARTICLE_COUNT K < 0"
  then show "shader_particles K Color rnd = Inl RangeError"
    by (simp add: shader_particles_def)
next
  assume "PARTICLE_COUNT K < 0"
  then show "cpu_scene K Color rnd = Inl RangeError"
    by (simp add: cpu_scene_result)
next
  assume "0 \<le> PARTICLE_COUNT K"
  then show "\<exists>d. shader_particles K Color rnd = Inr d
          \<and> length (sizes d) = nat (PARTICLE_COUNT K)
          \<and> length (positions d) = nat (PARTICLE_COUNT K) * 3"
    using shader_particles_ok[of K Color rnd] by blast
next
  assume "0 \<le> PARTICLE_COUNT K"
  then show "\<exists>d. cpu_scene K Color rnd = Inr d \<and> cpu_points d = cpu_particles K rnd"
    by (simp add: cpu_scene_result)
qed

theorem initialization_errors_witness:
  "shader_particles \<lparr>PARTICLE_COUNT = - 1, SATURN_RADIUS = 10, RING_INNER_RADIUS = 14,
       RING_OUTER_RADIUS = 22, EXPANSION_SCALE = 30\<rparr> (\<lambda>s. (0, 0, 0)) (\<lambda>k. 0) = Inl RangeError
   \<and> (\<exists>d. shader_particles \<lparr>PARTICLE_COUNT = 1000, SATURN_RADIUS = 10, RING_INNER_RADIUS = 14,
       RING_OUTER_RADIUS = 22, EXPANSION_SCALE = 30\<rparr> (\<lambda>s. (0, 0, 0)) (\<lambda>k. 0) = Inr d
       \<and> length (sizes d) = 1000)"
  using initialization_errors[of "\<lparr>PARTICLE_COUNT = - 1, SATURN_RADIUS = 10,
       RING_INNER_RADIUS = 14, RING_OUTER_RADIUS = 22, EXPANSION_SCALE = 30\<rparr>"
       "\<lambda>s. (0, 0, 0)" "\<lambda>k. 0"]
    initialization_errors[of "\<lparr>PARTICLE_COUNT = 1000, SATURN_RADIUS = 10,
       RING_INNER_RADIUS = 14, RING_OUTER_RADIUS = 22, EXPANSION_SCALE = 30\<rparr>"
       "\<lambda>s. (0, 0, 0)" "\<lambda>k. 0"]
  by auto

text \<open>
  C6 as stated fails: the particle count 0, an inner radius above the outer radius, and
  negative radii all give a particle field and no error.
\<close>

theorem initialization_counterexample:
  "(\<exists>d. shader_particles \<lparr>PARTICLE_COUNT = 0, SATURN_RADIUS = 10, RING_INNER_RADIUS = 14,
       RING_OUTER_RADIUS = 22, EXPANSION_SCALE = 30\<rparr> (\<lambda>s. (0, 0, 0)) (\<lambda>k. 0) = Inr d
       \<and> length (sizes d) = 0)
   \<and> (\<exists>d. shader_particles \<lparr>PARTICLE_COUNT = 1000, SATURN_RADIUS = 10, RING_INNER_RADIUS = 22,
       RING_OUTER_RADIUS = 14, EXPANSION_SCALE = 30\<rparr> (\<lambda>s. (0, 0, 0)) (\<lambda>k. 0) = Inr d
       \<and> length (sizes d) = 1000)
   \<and> (\<exists>d. shader_particles \<lparr>PARTICLE_COUNT = 1000, SATURN_RADIUS = - 10, RING_INNER_RADIUS = - 14,
       RING_OUTER_RADIUS = - 22, EXPANSION_SCALE = 30\<rparr> (\<lambda>s. (0, 0, 0)) (\<lambda>k. 0) = Inr d
       \<and> length (sizes d) = 1000)
   \<and> (\<exists>d. cpu_scene \<lparr>PARTICLE_COUNT = 1000, SATURN_RADIUS = 10, RING_INNER_RADIUS = 22,
       RING_OUTER_RADIUS = 14, EXPANSION_SCALE = 30\<rparr> (\<lambda>s. (0, 0, 0)) (\<lambda>k. 0) = Inr d)"
proof -
  have a: "\<exists>d. shader_particles \<lparr>PARTICLE_COUNT = 0, SATURN_RADIUS = 10, RING_INNER_RADIUS = 14,
       RING_OUTER_RADIUS = 22, EXPANSION_SCALE = 30\<rparr> (\<lambda>s. (0, 0, 0)) (\<lambda>k. 0) = Inr d
       \<and> length (sizes d) = 0"
    using shader_particles_ok[of "\<lparr>PARTICLE_COUNT = 0, SATURN_RADIUS = 10, RING_INNER_RADIUS = 14,
       RING_OUTER_RADIUS = 22, EXPANSION_SCALE = 30\<rparr>" "\<lambda>s. (0, 0, 0)" "\<lambda>k. 0"] by auto
  have b: "\<exists>d. shader_particles \<lparr>PARTICLE_COUNT = 1000, SATURN_RADIUS = 10, RING_INNER_RADIUS = 22,
       RING_OUTER_RADIUS = 14, EXPANSION_SCALE = 30\<rparr> (\<lambda>s. (0, 0, 0)) (\<lambda>k. 0) = Inr d
       \<and> length (sizes d) = 1000"
    using shader_particles_ok[of "\<lparr>PARTICLE_COUNT = 1000, SATURN_RADIUS = 10, RING_INNER_RADIUS = 22,
       RING_OUTER_RADIUS = 14, EXPANSION_SCALE = 30\<rparr>" "\<lambda>s. (0, 0, 0)" "\<lambda>k. 0"] by auto
  have c: "\<exists>d. shader_particles \<lparr>PARTICLE_COUNT = 1000, SATURN_RADIUS = - 10, RING_INNER_RADIUS = - 14,
       RING_OUTER_RADIUS = - 22, EXPANSION_SCALE = 30\<rparr> (\<lambda>s. (0, 0, 0)) (\<lambda>k. 0) = Inr d
       \<and> length (sizes d) = 1000"
    using shader_particles_ok[of "\<lparr>PARTICLE_COUNT = 1000, SATURN_RADIUS = - 10, RING_INNER_RADIUS = - 14,
       RING_OUTER_RADIUS = - 22, EXPANSION_SCALE = 30\<rparr>" "\<lambda>s. (0, 0, 0)" "\<lambda>k. 0"] by auto
  have d: "\<exists>d. cpu_scene \<lparr>PARTICLE_COUNT = 1000, SATURN_RADIUS = 10, RING_INNER_RADIUS = 22,
       RING_OUTER_RADIUS = 14, EXPANSION_SCALE = 30\<rparr> (\<lambda>s. (0, 0, 0)) (\<lambda>k. 0) = Inr d"
    by (simp add: cpu_scene_result)
  show ?thesis using a b c d by blast
qed

end
